theory Spec2Isabelle
  imports Complex_Main "HOL-Library.Char_ord" "HOL-Library.List_Lexorder" "HOL-Library.Monad_Syntax"
begin

section \<open>Camera state (class Camera and class FisheyeCamera of aniposelib/cameras.py)\<close>

text \<open>
  A camera object holds its intrinsic matrix, distortion vector, frame size, rotation and
  translation vectors, name and the flag \<open>extra_dist\<close>. The two classes share the fields;
  the class decides which \<open>get_params\<close>/\<open>set_params\<close>/\<open>get_dict\<close> runs. Array fields are
  numpy arrays of float64; they are lists of reals here (a matrix is the list of its rows).
  The size is \<open>None\<close> until it is set. A raised exception is the result \<open>None\<close>.
\<close>

datatype camera_class = Pinhole | Fisheye

record camera =
  c_class :: camera_class
  c_matrix :: "real list list"
  c_dist :: "real list"
  c_size :: "real list option"
  c_rvec :: "real list"
  c_tvec :: "real list"
  c_name :: string
  c_extra_dist :: bool

text \<open>\<open>m[i, j]\<close> on a two-dimensional array: IndexError out of range.\<close>

definition mat_at :: "real list list \<Rightarrow> nat \<Rightarrow> nat \<Rightarrow> real option" where
  "mat_at m i j = (if i < length m \<and> j < length (m ! i) then Some (m ! i ! j) else None)"

text \<open>\<open>m[i, j] = v\<close>, in place: IndexError out of range.\<close>

definition mat_set :: "real list list \<Rightarrow> nat \<Rightarrow> nat \<Rightarrow> real \<Rightarrow> real list list option" where
  "mat_set m i j v =
     (if i < length m \<and> j < length (m ! i) then Some (m[i := (m ! i)[j := v]]) else None)"

text \<open>\<open>v[i]\<close> on a one-dimensional array: IndexError out of range.\<close>

definition vec_at :: "real list \<Rightarrow> nat \<Rightarrow> real option" where
  "vec_at v i = (if i < length v then Some (v ! i) else None)"

text \<open>
  The slice assignment \<open>out[a:a+n] = v\<close> of numpy for a one-dimensional \<open>v\<close>: the values are
  copied when \<open>v\<close> has \<open>n\<close> entries, a single entry is broadcast, anything else is a
  ValueError. The result is the new content of the \<open>n\<close> slots.
\<close>

definition np_assign :: "nat \<Rightarrow> real list \<Rightarrow> real list option" where
  "np_assign n v =
     (if length v = n then Some v
      else if length v = 1 then Some (replicate n (hd v))
      else None)"

subsection \<open>Camera.get_params and Camera.set_params (lines 369 to 437)\<close>

definition Camera_get_params :: "camera \<Rightarrow> bool \<Rightarrow> real list option" where
  "Camera_get_params cam optimize_intrinsics = do {
     r \<leftarrow> np_assign 3 (c_rvec cam);
     t \<leftarrow> np_assign 3 (c_tvec cam);
     if \<not> optimize_intrinsics then Some (r @ t)
     else do {
       fx \<leftarrow> mat_at (c_matrix cam) 0 0;
       fy \<leftarrow> mat_at (c_matrix cam) 1 1;
       cx \<leftarrow> mat_at (c_matrix cam) 0 2;
       cy \<leftarrow> mat_at (c_matrix cam) 1 2;
       skew \<leftarrow> mat_at (c_matrix cam) 0 1;
       d \<leftarrow> np_assign 5 (take 5 (c_dist cam));
       Some ((r @ t) @ ([fx, fy, cx, cy, skew] @ d))
     }
   }"

definition Camera_set_params :: "real list \<Rightarrow> bool \<Rightarrow> camera \<Rightarrow> camera option" where
  "Camera_set_params params optimize_intrinsics cam =
     (let cam1 = cam\<lparr>c_rvec := take 3 params, c_tvec := take 3 (drop 3 params)\<rparr>
      in if \<not> optimize_intrinsics then Some cam1
         else do {
           fx \<leftarrow> vec_at params 6;
           fy \<leftarrow> vec_at params 7;
           cx \<leftarrow> vec_at params 8;
           cy \<leftarrow> vec_at params 9;
           skew \<leftarrow> vec_at params 10;
           (case take 5 (drop 11 params) of
              [k1, k2, p1, p2, k3] \<Rightarrow>
                Some (cam1\<lparr>c_matrix := [[fx, skew, cx], [0, fy, cy], [0, 0, 1]],
                           c_dist := [k1, k2, p1, p2, k3]\<rparr>)
            | _ \<Rightarrow> None)
         })"

subsection \<open>FisheyeCamera.get_params and FisheyeCamera.set_params (lines 570 to 603)\<close>

text \<open>\<open>get_focal_length()\<close> with \<open>both=False\<close>: the mean of \<open>fx\<close> and \<open>fy\<close>.\<close>

definition get_focal_length :: "camera \<Rightarrow> real option" where
  "get_focal_length cam = do {
     fx \<leftarrow> mat_at (c_matrix cam) 0 0;
     fy \<leftarrow> mat_at (c_matrix cam) 1 1;
     Some ((fx + fy) / 2)
   }"

text \<open>\<open>set_focal_length(fx)\<close> with \<open>fy=None\<close>: both diagonal entries become \<open>fx\<close>.\<close>

definition set_focal_length :: "real \<Rightarrow> camera \<Rightarrow> camera option" where
  "set_focal_length fx cam = do {
     m1 \<leftarrow> mat_set (c_matrix cam) 0 0 fx;
     m2 \<leftarrow> mat_set m1 1 1 fx;
     Some (cam\<lparr>c_matrix := m2\<rparr>)
   }"

definition FisheyeCamera_get_params :: "camera \<Rightarrow> bool \<Rightarrow> real list option" where
  "FisheyeCamera_get_params cam only_extrinsics = do {
     r \<leftarrow> np_assign 3 (c_rvec cam);
     t \<leftarrow> np_assign 3 (c_tvec cam);
     if only_extrinsics then Some (r @ t)
     else do {
       f \<leftarrow> get_focal_length cam;
       d0 \<leftarrow> vec_at (c_dist cam) 0;
       if c_extra_dist cam
       then do { d1 \<leftarrow> vec_at (c_dist cam) 1; Some ((r @ t) @ [f, d0, d1]) }
       else Some ((r @ t) @ [f, d0])
     }
   }"

definition FisheyeCamera_set_params :: "real list \<Rightarrow> bool \<Rightarrow> camera \<Rightarrow> camera option" where
  "FisheyeCamera_set_params params only_extrinsics cam =
     (let cam1 = cam\<lparr>c_rvec := take 3 params, c_tvec := take 3 (drop 3 params)\<rparr>
      in if only_extrinsics then Some cam1
         else do {
           f \<leftarrow> vec_at params 6;
           cam2 \<leftarrow> set_focal_length f cam1;
           d0 \<leftarrow> vec_at params 7;
           if c_extra_dist cam
           then do { d1 \<leftarrow> vec_at params 8; Some (cam2\<lparr>c_dist := [d0, d1, 0, 0]\<rparr>) }
           else Some (cam2\<lparr>c_dist := [d0, 0, 0, 0]\<rparr>)
         })"

text \<open>
  The method call \<open>cam.get_params(flag)\<close> with one positional argument: the class of the
  object decides which method runs, and with it what the flag means
  (\<open>optimize_intrinsics\<close> for Camera, \<open>only_extrinsics\<close> for FisheyeCamera).
\<close>

definition get_params :: "camera \<Rightarrow> bool \<Rightarrow> real list option" where
  "get_params cam flag =
     (case c_class cam of
        Pinhole \<Rightarrow> Camera_get_params cam flag
      | Fisheye \<Rightarrow> FisheyeCamera_get_params cam flag)"

definition set_params :: "real list \<Rightarrow> bool \<Rightarrow> camera \<Rightarrow> camera option" where
  "set_params params flag cam =
     (case c_class cam of
        Pinhole \<Rightarrow> Camera_set_params params flag cam
      | Fisheye \<Rightarrow> FisheyeCamera_set_params params flag cam)"

subsection \<open>The round trip through the parameter vector, intrinsics included\<close>

text \<open>
  Intrinsics are included by \<open>optimize_intrinsics=True\<close> on a Camera and by
  \<open>only_extrinsics=False\<close> on a FisheyeCamera.
\<close>

definition roundtrip_params :: "camera \<Rightarrow> camera option" where
  "roundtrip_params cam =
     (case c_class cam of
        Pinhole \<Rightarrow> do { p \<leftarrow> Camera_get_params cam True; Camera_set_params p True cam }
      | Fisheye \<Rightarrow>
          do { p \<leftarrow> FisheyeCamera_get_params cam False; FisheyeCamera_set_params p False cam })"

text \<open>
  The state a camera is expected to have: rotation and translation are 3-vectors, the
  matrix is 3 by 3; a pinhole camera has 5 distortion coefficients and an upper-triangular
  matrix with unit bottom-right entry, a fisheye camera has 4 distortion slots.
\<close>

definition upper_unit :: "real list list \<Rightarrow> bool" where
  "upper_unit m = (\<exists>fx s cx fy cy. m = [[fx, s, cx], [0, fy, cy], [0, 0, 1]])"

definition is_3x3 :: "real list list \<Rightarrow> bool" where
  "is_3x3 m = (length m = 3 \<and> list_all (\<lambda>row. length row = 3) m)"

definition wf_camera :: "camera \<Rightarrow> bool" where
  "wf_camera cam =
     (length (c_rvec cam) = 3 \<and> length (c_tvec cam) = 3 \<and>
      (case c_class cam of
         Pinhole \<Rightarrow> upper_unit (c_matrix cam) \<and> length (c_dist cam) = 5
       | Fisheye \<Rightarrow> is_3x3 (c_matrix cam) \<and> length (c_dist cam) = 4))"

text \<open>What the fisheye round trip leaves: one focal length, the first distortion slots.\<close>

definition fisheye_reduced :: "camera \<Rightarrow> camera" where
  "fisheye_reduced cam =
     (let m = c_matrix cam; f = (m ! 0 ! 0 + m ! 1 ! 1) / 2;
          m1 = m[0 := (m ! 0)[0 := f]]; m2 = m1[1 := (m1 ! 1)[1 := f]]
      in cam\<lparr>c_matrix := m2,
              c_dist := (if c_extra_dist cam then [c_dist cam ! 0, c_dist cam ! 1, 0, 0]
                         else [c_dist cam ! 0, 0, 0, 0])\<rparr>)"

definition example_pinhole :: camera where
  "example_pinhole =
     \<lparr>c_class = Pinhole, c_matrix = [[800, 0, 320], [0, 810, 240], [0, 0, 1]],
      c_dist = [1, 2, 3, 4, 5], c_size = Some [640, 480], c_rvec = [1, 2, 3],
      c_tvec = [4, 5, 6], c_name = ''A'', c_extra_dist = False\<rparr>"

definition example_fisheye :: camera where
  "example_fisheye =
     \<lparr>c_class = Fisheye, c_matrix = [[1, 0, 0], [0, 3, 0], [0, 0, 1]],
      c_dist = [1, 2, 3, 4], c_size = Some [640, 480], c_rvec = [0, 0, 0],
      c_tvec = [0, 0, 0], c_name = ''F'', c_extra_dist = False\<rparr>"

section \<open>CameraGroup.bundle_adjust: the parameter blocks (lines 1088 to 1148, 1264 to 1321)\<close>

text \<open>
  A camera group is the ordered list of its cameras and a metadata dictionary.
\<close>

record camera_group =
  cameras :: "camera list"
  metadata :: "(string \<times> string) list"

text \<open>
  \<open>_initialize_params_bundle\<close>: the blocks \<open>cam.get_params(only_extrinsics)\<close> of all cameras
  are stacked (\<open>np.hstack\<close> raises on an empty list), \<open>n_cam_params\<close> is the stacked length
  divided by the number of cameras, and the start vector is the stacked blocks followed by
  the flattened triangulated points and the board poses. The triangulated points
  \<open>self.triangulate(p2ds).ravel()\<close> and the flattened board poses (empty when \<open>extra\<close> is
  \<open>None\<close>) are given as \<open>p3ds\<close> and \<open>board\<close>.
\<close>

definition initialize_params_bundle ::
  "camera list \<Rightarrow> real list \<Rightarrow> real list \<Rightarrow> bool \<Rightarrow> (real list \<times> nat) option" where
  "initialize_params_bundle cams p3ds board only_extrinsics =
     (if cams = [] then None
      else do {
        blocks \<leftarrow> those (map (\<lambda>cam. get_params cam only_extrinsics) cams);
        let cam_params = concat blocks;
        let n_cam_params = length cam_params div length cams;
        Some (cam_params @ p3ds @ board, n_cam_params)
      })"

text \<open>
  The loop \<open>for i, cam in enumerate(self.cameras): cam.set_params(params[a:b], only_extrinsics)\<close>
  with \<open>a = i * n_cam_params\<close> and \<open>b = (i + 1) * n_cam_params\<close>; it runs in
  \<open>_error_fun_bundle\<close> at every evaluation of the residuals and once more on the solver's
  result.
\<close>

definition commit_params :: "real list \<Rightarrow> nat \<Rightarrow> bool \<Rightarrow> camera list \<Rightarrow> camera list option" where
  "commit_params params n_cam_params only_extrinsics cams =
     those (map (\<lambda>(i, cam).
                   set_params (take n_cam_params (drop (i * n_cam_params) params))
                     only_extrinsics cam)
                (enumerate 0 cams))"

fun commit_trials :: "real list list \<Rightarrow> nat \<Rightarrow> bool \<Rightarrow> camera list \<Rightarrow> camera list option" where
  "commit_trials [] n flag cams = Some cams"
| "commit_trials (params # rest) n flag cams =
     (case commit_params params n flag cams of
        None \<Rightarrow> None
      | Some cams1 \<Rightarrow> commit_trials rest n flag cams1)"

text \<open>
  \<open>bundle_adjust\<close>. The least-squares solver of scipy is outside the repository: \<open>solver\<close>
  maps the start vector to the parameter vectors at which it evaluates the residual
  function, in order, and to its result \<open>opt.x\<close>. \<open>n_rows\<close> is \<open>p2ds.shape[0]\<close>. The result
  is the cameras after the call (the returned error is computed by numeric kernels and is
  left out).
\<close>

definition bundle_adjust ::
  "(real list \<Rightarrow> real list list \<times> real list) \<Rightarrow> nat \<Rightarrow> real list \<Rightarrow> real list \<Rightarrow>
   real list option \<Rightarrow> bool \<Rightarrow> camera list \<Rightarrow> camera list option" where
  "bundle_adjust solver n_rows p3ds board start_params only_extrinsics cams =
     (if n_rows \<noteq> length cams then None
      else do {
        (x0, n_cam_params) \<leftarrow> initialize_params_bundle cams p3ds board only_extrinsics;
        let x1 = (case start_params of None \<Rightarrow> x0 | Some sp \<Rightarrow> sp);
        let (trials, best_params) = solver x1;
        cams1 \<leftarrow> commit_trials trials n_cam_params only_extrinsics cams;
        commit_params best_params n_cam_params only_extrinsics cams1
      })"

text \<open>A solver that evaluates nothing and moves the parameter at index 6 to 999.\<close>

definition example_solver :: "real list \<Rightarrow> real list list \<times> real list" where
  "example_solver x0 = ([], x0[6 := 999])"


section \<open>Persistence: get_dict, load_dict, from_dicts, dump and load (lines 256 to 277, 2032 to 2077)\<close>

text \<open>
  The record written for one camera. The key \<open>fisheye\<close> is present only in the record of a
  FisheyeCamera.
\<close>

record cam_dict =
  d_name :: string
  d_size :: "real list"
  d_matrix :: "real list list"
  d_distortions :: "real list"
  d_rotation :: "real list"
  d_translation :: "real list"
  d_fisheye :: "bool option"

text \<open>\<open>Camera.get_dict\<close>: \<open>list(self.get_size())\<close> is a TypeError while the size is \<open>None\<close>.\<close>

definition Camera_get_dict :: "camera \<Rightarrow> cam_dict option" where
  "Camera_get_dict cam =
     (case c_size cam of
        None \<Rightarrow> None
      | Some sz \<Rightarrow>
          Some \<lparr>d_name = c_name cam, d_size = sz, d_matrix = c_matrix cam,
                d_distortions = c_dist cam, d_rotation = c_rvec cam,
                d_translation = c_tvec cam, d_fisheye = None\<rparr>)"

definition FisheyeCamera_get_dict :: "camera \<Rightarrow> cam_dict option" where
  "FisheyeCamera_get_dict cam =
     map_option (\<lambda>d. d\<lparr>d_fisheye := Some True\<rparr>) (Camera_get_dict cam)"

definition get_dict :: "camera \<Rightarrow> cam_dict option" where
  "get_dict cam =
     (case c_class cam of
        Pinhole \<Rightarrow> Camera_get_dict cam
      | Fisheye \<Rightarrow> FisheyeCamera_get_dict cam)"

text \<open>The objects \<open>Camera()\<close> and \<open>FisheyeCamera()\<close> built with the default arguments.\<close>

definition Camera_default :: camera where
  "Camera_default =
     \<lparr>c_class = Pinhole, c_matrix = [[1, 0, 0], [0, 1, 0], [0, 0, 1]],
      c_dist = [0, 0, 0, 0, 0], c_size = None, c_rvec = [0, 0, 0], c_tvec = [0, 0, 0],
      c_name = ''None'', c_extra_dist = False\<rparr>"

definition FisheyeCamera_default :: camera where
  "FisheyeCamera_default = Camera_default\<lparr>c_class := Fisheye, c_dist := [0, 0, 0, 0]\<rparr>"

definition load_dict :: "cam_dict \<Rightarrow> camera \<Rightarrow> camera" where
  "load_dict d cam =
     cam\<lparr>c_matrix := d_matrix d, c_rvec := d_rotation d, c_tvec := d_translation d,
         c_dist := d_distortions d, c_name := d_name d, c_size := Some (d_size d)\<rparr>"

definition from_dict :: "cam_dict \<Rightarrow> camera" where
  "from_dict d =
     (if d_fisheye d = Some True then load_dict d FisheyeCamera_default
      else load_dict d Camera_default)"

definition get_dicts :: "camera_group \<Rightarrow> cam_dict list option" where
  "get_dicts g = those (map get_dict (cameras g))"

text \<open>\<open>CameraGroup.from_dicts\<close>: the group gets the default metadata, the empty dictionary.\<close>

definition from_dicts :: "cam_dict list \<Rightarrow> camera_group" where
  "from_dicts arr = \<lparr>cameras = map from_dict arr, metadata = []\<rparr>"

text \<open>\<open>str(i)\<close> for a natural number: its decimal digits.\<close>

definition digit_char :: "nat \<Rightarrow> char" where
  "digit_char d = char_of (48 + d)"

function str_nat :: "nat \<Rightarrow> string" where
  "str_nat n = (if n < 10 then [digit_char n] else str_nat (n div 10) @ [digit_char (n mod 10)])"
  by pat_completeness auto
termination
  by (relation "measure id") auto

declare str_nat.simps [simp del]

text \<open>
  The camera-group record: a dictionary from keys to camera records, with the metadata
  under the key \<open>metadata\<close>. It is kept as the list of its items in insertion order. Writing
  the record to a TOML file and reading it back is the work of the \<open>toml\<close> library and is
  taken to return the same items.
\<close>

datatype entry = CamEntry cam_dict | MetaEntry "(string \<times> string) list"

definition dict_set :: "(string \<times> 'v) list \<Rightarrow> string \<Rightarrow> 'v \<Rightarrow> (string \<times> 'v) list" where
  "dict_set m k v =
     (if k \<in> fst ` set m then map (\<lambda>(k', v'). if k' = k then (k', v) else (k', v')) m
      else m @ [(k, v)])"

definition dump :: "camera_group \<Rightarrow> (string \<times> entry) list option" where
  "dump g = do {
     dicts \<leftarrow> get_dicts g;
     let names = map (\<lambda>i. ''cam_'' @ str_nat i) [0..<length dicts];
     let master_dict = zip names (map CamEntry dicts);
     Some (dict_set master_dict ''metadata'' (MetaEntry (metadata g)))
   }"

text \<open>
  \<open>CameraGroup.load\<close>: the keys are sorted as strings, the key \<open>metadata\<close> is left out of the
  items, and the metadata of the record replaces the default one. An item that is not a
  camera record makes \<open>load_dict\<close> raise. (A camera record under the key \<open>metadata\<close> has
  no place in the metadata type of this model; the dump never writes one.)
\<close>

definition load :: "(string \<times> entry) list \<Rightarrow> camera_group option" where
  "load master_dict = do {
     let keys = sort (map fst master_dict);
     items \<leftarrow> those (map (\<lambda>k. case map_of master_dict k of
                                   Some (CamEntry d) \<Rightarrow> Some d
                                 | _ \<Rightarrow> None)
                          (filter (\<lambda>k. k \<noteq> ''metadata'') keys));
     let cgroup = from_dicts items;
     (case map_of master_dict ''metadata'' of
        Some (MetaEntry md) \<Rightarrow> Some (cgroup\<lparr>metadata := md\<rparr>)
      | Some (CamEntry d) \<Rightarrow> None
      | None \<Rightarrow> Some cgroup)
   }"

text \<open>A group of \<open>n\<close> pinhole cameras named \<open>0\<close> to \<open>n - 1\<close>.\<close>

definition example_group :: "nat \<Rightarrow> camera_group" where
  "example_group n =
     \<lparr>cameras = map (\<lambda>i. example_pinhole\<lparr>c_name := str_nat i\<rparr>) [0..<n], metadata = []\<rparr>"


section \<open>Object identity: Camera.copy and CameraGroup.subset_cameras (lines 495 to 504, 617 to 624)\<close>

text \<open>
  To see what two groups share, objects live in a store and are named by addresses. A
  camera object owns its numpy arrays (\<open>Camera.copy\<close> copies each of them, and the
  constructor copies again, so they are values of the object here); its size is a reference
  to a separate object, because \<open>copy\<close> passes \<open>self.get_size()\<close> on as it is. A group
  object holds the addresses of its cameras and the address of its metadata dictionary.
\<close>

type_synonym addr = nat

record camera_obj =
  o_class :: camera_class
  o_matrix :: "real list list"
  o_dist :: "real list"
  o_size :: "addr option"
  o_rvec :: "real list"
  o_tvec :: "real list"
  o_name :: string
  o_extra_dist :: bool

record store =
  cam_objs :: "addr \<rightharpoonup> camera_obj"
  size_objs :: "addr \<rightharpoonup> real list"
  dict_objs :: "addr \<rightharpoonup> (string \<times> string) list"
  next_addr :: addr

record group_obj =
  g_cameras :: "addr list"
  g_metadata :: addr

text \<open>\<open>xs[i]\<close> on a Python list: a negative index counts from the end, IndexError out of range.\<close>

definition py_index :: "'a list \<Rightarrow> int \<Rightarrow> 'a option" where
  "py_index xs i =
     (if 0 \<le> i \<and> i < int (length xs) then Some (xs ! nat i)
      else if i < 0 \<and> - i \<le> int (length xs) then Some (xs ! nat (int (length xs) + i))
      else None)"

text \<open>
  \<open>Camera.copy\<close> and \<open>FisheyeCamera.copy\<close>: a new object of the same class with copies of
  the arrays and the same size object, name and flag.
\<close>

definition Camera_copy :: "store \<Rightarrow> addr \<Rightarrow> (store \<times> addr) option" where
  "Camera_copy h a =
     (case cam_objs h a of
        None \<Rightarrow> None
      | Some c \<Rightarrow>
          Some (h\<lparr>cam_objs := (cam_objs h)(next_addr h \<mapsto> c), next_addr := Suc (next_addr h)\<rparr>,
                next_addr h))"

text \<open>The comprehension \<open>[self.cameras[ix].copy() for ix in indices]\<close>.\<close>

fun copy_cameras :: "store \<Rightarrow> addr list \<Rightarrow> int list \<Rightarrow> (store \<times> addr list) option" where
  "copy_cameras h cams [] = Some (h, [])"
| "copy_cameras h cams (ix # indices) =
     (case py_index cams ix of
        None \<Rightarrow> None
      | Some a \<Rightarrow>
          (case Camera_copy h a of
             None \<Rightarrow> None
           | Some (h1, a1) \<Rightarrow>
               (case copy_cameras h1 cams indices of
                  None \<Rightarrow> None
                | Some (h2, rest) \<Rightarrow> Some (h2, a1 # rest))))"

text \<open>\<open>subset_cameras\<close>: \<open>CameraGroup(cams, self.metadata)\<close> stores the parent's dictionary.\<close>

definition subset_cameras :: "store \<Rightarrow> group_obj \<Rightarrow> int list \<Rightarrow> (store \<times> group_obj) option" where
  "subset_cameras h g indices =
     (case copy_cameras h (g_cameras g) indices of
        None \<Rightarrow> None
      | Some (h1, cams) \<Rightarrow> Some (h1, \<lparr>g_cameras = cams, g_metadata = g_metadata g\<rparr>))"

text \<open>
  Mutations through a group: \<open>g.metadata[k] = v\<close>, \<open>g.cameras[i].set_rotation(rvec)\<close> and
  \<open>g.cameras[i].size[j] = v\<close> (the size being a list); and what a group reads.
\<close>

definition metadata_setitem :: "store \<Rightarrow> group_obj \<Rightarrow> string \<Rightarrow> string \<Rightarrow> store option" where
  "metadata_setitem h g k v =
     (case dict_objs h (g_metadata g) of
        None \<Rightarrow> None
      | Some m \<Rightarrow> Some (h\<lparr>dict_objs := (dict_objs h)(g_metadata g \<mapsto> dict_set m k v)\<rparr>))"

definition camera_set_rotation :: "store \<Rightarrow> group_obj \<Rightarrow> int \<Rightarrow> real list \<Rightarrow> store option" where
  "camera_set_rotation h g i rvec = do {
     a \<leftarrow> py_index (g_cameras g) i;
     c \<leftarrow> cam_objs h a;
     Some (h\<lparr>cam_objs := (cam_objs h)(a \<mapsto> c\<lparr>o_rvec := rvec\<rparr>)\<rparr>)
   }"

definition camera_size_setitem :: "store \<Rightarrow> group_obj \<Rightarrow> int \<Rightarrow> int \<Rightarrow> real \<Rightarrow> store option" where
  "camera_size_setitem h g i j v = do {
     a \<leftarrow> py_index (g_cameras g) i;
     c \<leftarrow> cam_objs h a;
     sa \<leftarrow> o_size c;
     sz \<leftarrow> size_objs h sa;
     _ \<leftarrow> py_index sz j;
     Some (h\<lparr>size_objs := (size_objs h)(sa \<mapsto> sz[nat (if j < 0 then int (length sz) + j else j) := v])\<rparr>)
   }"

definition read_metadata :: "store \<Rightarrow> group_obj \<Rightarrow> (string \<times> string) list option" where
  "read_metadata h g = dict_objs h (g_metadata g)"

definition read_rotation :: "store \<Rightarrow> group_obj \<Rightarrow> int \<Rightarrow> real list option" where
  "read_rotation h g i = do {
     a \<leftarrow> py_index (g_cameras g) i;
     c \<leftarrow> cam_objs h a;
     Some (o_rvec c)
   }"

definition read_size :: "store \<Rightarrow> group_obj \<Rightarrow> int \<Rightarrow> real list option" where
  "read_size h g i = do {
     a \<leftarrow> py_index (g_cameras g) i;
     c \<leftarrow> cam_objs h a;
     sa \<leftarrow> o_size c;
     size_objs h sa
   }"

text \<open>
  A store with one pinhole camera (address 0) whose size is the list at address 1, and the
  metadata dictionary at address 2; the parent group holds that camera.
\<close>

definition example_store :: store where
  "example_store =
     \<lparr>cam_objs = [0 \<mapsto> \<lparr>o_class = Pinhole, o_matrix = [[800, 0, 320], [0, 810, 240], [0, 0, 1]],
                          o_dist = [0, 0, 0, 0, 0], o_size = Some 1, o_rvec = [1, 2, 3],
                          o_tvec = [4, 5, 6], o_name = ''A'', o_extra_dist = False\<rparr>],
      size_objs = [1 \<mapsto> [640, 480]],
      dict_objs = [2 \<mapsto> [(''session'', ''a'')]],
      next_addr = 3\<rparr>"

definition example_parent :: group_obj where
  "example_parent = \<lparr>g_cameras = [0], g_metadata = 2\<rparr>"


section \<open>Observations, missing values and the numeric kernels\<close>

text \<open>
  A float64 value is either a number or not-a-number: \<open>None\<close> is NaN, \<open>Some x\<close> the number
  \<open>x\<close>, taken as a real (rounding and the infinities are not part of this model; a division
  by zero, which numpy answers with \<open>inf\<close> or \<open>nan\<close>, gives NaN). Arithmetic propagates NaN
  and every comparison with NaN is false, as in numpy.
\<close>

type_synonym fl = "real option"

definition isnan :: "fl \<Rightarrow> bool" where
  "isnan a = (a = None)"

definition fl_mul :: "fl \<Rightarrow> fl \<Rightarrow> fl" where
  "fl_mul a b = (case (a, b) of (Some x, Some y) \<Rightarrow> Some (x * y) | _ \<Rightarrow> None)"

definition fl_sub :: "fl \<Rightarrow> fl \<Rightarrow> fl" where
  "fl_sub a b = (case (a, b) of (Some x, Some y) \<Rightarrow> Some (x - y) | _ \<Rightarrow> None)"

definition fl_div :: "fl \<Rightarrow> fl \<Rightarrow> fl" where
  "fl_div a b =
     (case (a, b) of (Some x, Some y) \<Rightarrow> (if y = 0 then None else Some (x / y)) | _ \<Rightarrow> None)"

definition fl_less :: "fl \<Rightarrow> fl \<Rightarrow> bool" where
  "fl_less a b = (case (a, b) of (Some x, Some y) \<Rightarrow> x < y | _ \<Rightarrow> False)"

text \<open>The number that a float holds, 0 for NaN.\<close>

definition fl_val :: "fl \<Rightarrow> real" where
  "fl_val a = (case a of None \<Rightarrow> 0 | Some v \<Rightarrow> v)"

text \<open>
  An observation is a pair of pixel coordinates; a 3D point is a triple; a row of a camera
  matrix has four entries, and the extrinsics matrix returned by \<open>make_M\<close> has four rows.
\<close>

type_synonym obs = "fl \<times> fl"
type_synonym p3 = "fl \<times> fl \<times> fl"
type_synonym vec4 = "fl \<times> fl \<times> fl \<times> fl"
type_synonym mat4 = "vec4 \<times> vec4 \<times> vec4 \<times> vec4"

definition missing3 :: p3 where
  "missing3 = (None, None, None)"

definition finite3 :: "p3 \<Rightarrow> bool" where
  "finite3 p = (case p of (a, b, c) \<Rightarrow> \<not> isnan a \<and> \<not> isnan b \<and> \<not> isnan c)"

definition finite4 :: "vec4 \<Rightarrow> bool" where
  "finite4 v = (case v of (a, b, c, d) \<Rightarrow> \<not> isnan a \<and> \<not> isnan b \<and> \<not> isnan c \<and> \<not> isnan d)"

definition scale4 :: "fl \<Rightarrow> vec4 \<Rightarrow> vec4" where
  "scale4 w v = (case v of (a, b, c, d) \<Rightarrow> (fl_mul w a, fl_mul w b, fl_mul w c, fl_mul w d))"

definition sub4 :: "vec4 \<Rightarrow> vec4 \<Rightarrow> vec4" where
  "sub4 u v =
     (case (u, v) of
        ((a, b, c, d), (a', b', c', d')) \<Rightarrow> (fl_sub a a', fl_sub b b', fl_sub c c', fl_sub d d'))"

text \<open>\<open>p3d[:3] / p3d[3]\<close>.\<close>

definition dehomogenize :: "vec4 \<Rightarrow> p3" where
  "dehomogenize v = (case v of (a, b, c, d) \<Rightarrow> (fl_div a d, fl_div b d, fl_div c d))"

text \<open>
  The numeric kernels that the repository calls and does not contain: \<open>svd_last A\<close> is
  \<open>np.linalg.svd(A)[2][-1]\<close>, the right singular vector of the smallest singular value, and
  \<open>None\<close> when the decomposition raises \<open>LinAlgError\<close>;
  \<open>cv_undistort\<close> and \<open>cv_project\<close> are what \<open>Camera.undistort_points\<close> and \<open>Camera.project\<close>
  get from OpenCV for a camera; \<open>make_M\<close> (module \<open>utils\<close>) builds the extrinsics matrix from
  rotation and translation.
\<close>

record kernels =
  svd_last :: "vec4 list \<Rightarrow> vec4 option"
  cv_undistort :: "camera \<Rightarrow> obs list \<Rightarrow> obs list"
  cv_project :: "camera \<Rightarrow> p3 \<Rightarrow> obs"
  make_M :: "real list \<Rightarrow> real list \<Rightarrow> mat4"

definition get_extrinsics_mat :: "kernels \<Rightarrow> camera \<Rightarrow> mat4" where
  "get_extrinsics_mat K cam = make_M K (c_rvec cam) (c_tvec cam)"

section \<open>Linear triangulation (lines 20 to 85, 651 to 808)\<close>

text \<open>
  \<open>triangulate_simple(points, camera_mats)\<close>: two rows per camera,
  \<open>x * mat[2] - mat[0]\<close> and \<open>y * mat[2] - mat[1]\<close>. The function is compiled by numba:
  an index is not checked against the bounds (\<open>points[i]\<close> beyond the end is whatever the
  memory holds, here the unspecified \<open>points ! i\<close>), and \<open>np.linalg.svd\<close> raises
  \<open>LinAlgError\<close> on a matrix with an entry that is NaN, before the decomposition is
  attempted. The exception is the result \<open>None\<close>.
\<close>

definition simple_rows :: "obs \<Rightarrow> mat4 \<Rightarrow> vec4 list" where
  "simple_rows p mat =
     (case (p, mat) of
        ((x, y), (m0, m1, m2, m3)) \<Rightarrow> [sub4 (scale4 x m2) m0, sub4 (scale4 y m2) m1])"

definition simple_system :: "obs list \<Rightarrow> mat4 list \<Rightarrow> vec4 list" where
  "simple_system points camera_mats =
     concat (map (\<lambda>i. simple_rows (points ! i) (camera_mats ! i)) [0..<length camera_mats])"

definition np_linalg_svd :: "(vec4 list \<Rightarrow> vec4 option) \<Rightarrow> vec4 list \<Rightarrow> vec4 option" where
  "np_linalg_svd svd A = (if list_all finite4 A then svd A else None)"

definition triangulate_simple ::
  "(vec4 list \<Rightarrow> vec4 option) \<Rightarrow> obs list \<Rightarrow> mat4 list \<Rightarrow> p3 option" where
  "triangulate_simple svd points camera_mats =
     map_option dehomogenize (np_linalg_svd svd (simple_system points camera_mats))"

text \<open>
  \<open>triangulate_weighted(points, camera_mats, weights)\<close>: the same two rows, each multiplied
  by \<open>weights[i]\<close>.
\<close>

definition weighted_rows :: "obs \<Rightarrow> mat4 \<Rightarrow> fl \<Rightarrow> vec4 list" where
  "weighted_rows p mat w =
     (case (p, mat) of
        ((x, y), (m0, m1, m2, m3)) \<Rightarrow>
          [scale4 w (sub4 (scale4 x m2) m0), scale4 w (sub4 (scale4 y m2) m1)])"

definition weighted_system :: "obs list \<Rightarrow> mat4 list \<Rightarrow> fl list \<Rightarrow> vec4 list" where
  "weighted_system points camera_mats weights =
     concat (map (\<lambda>i. weighted_rows (points ! i) (camera_mats ! i) (weights ! i))
               [0..<length camera_mats])"

definition triangulate_weighted ::
  "(vec4 list \<Rightarrow> vec4 option) \<Rightarrow> obs list \<Rightarrow> mat4 list \<Rightarrow> fl list \<Rightarrow> p3 option" where
  "triangulate_weighted svd points camera_mats weights =
     map_option dehomogenize (np_linalg_svd svd (weighted_system points camera_mats weights))"

text \<open>
  The observation tensor of shape \<open>(C, N, 2)\<close> is the list of its \<open>C\<close> rows, each a list of
  \<open>N\<close> observations; \<open>N\<close> is passed along as \<open>n_points\<close>. \<open>points[:, ip, :]\<close> is a column,
  \<open>xs[good]\<close> the selection by a boolean mask, \<open>np.sum(good)\<close> the number of true entries.
\<close>

definition shape_ok :: "'a list list \<Rightarrow> nat \<Rightarrow> bool" where
  "shape_ok points n_points = list_all (\<lambda>row. length row = n_points) points"

definition column :: "'a list list \<Rightarrow> nat \<Rightarrow> 'a list" where
  "column points ip = map (\<lambda>row. row ! ip) points"

definition select_mask :: "bool list \<Rightarrow> 'a list \<Rightarrow> 'a list" where
  "select_mask good xs = map snd (filter fst (zip good xs))"

definition count_true :: "bool list \<Rightarrow> nat" where
  "count_true good = length (filter (\<lambda>b. b) good)"

text \<open>The loop \<open>new_points[cnum] = cam.undistort_points(np.copy(points[cnum]))\<close>.\<close>

definition undistort_all :: "kernels \<Rightarrow> camera list \<Rightarrow> obs list list \<Rightarrow> obs list list" where
  "undistort_all K cams points = map (\<lambda>(cam, row). cv_undistort K cam row) (zip cams points)"

text \<open>
  \<open>CameraGroup.triangulate(points, undistort)\<close> with \<open>fast=False\<close>, the default, on a tensor
  of shape \<open>(C, N, 2)\<close>. The assertion on \<open>points.shape[0]\<close> and an exception of
  \<open>triangulate_simple\<close> end the call (\<open>None\<close>). The branch \<open>fast=True\<close> (pairwise
  \<open>cv2.triangulatePoints\<close> and \<open>nanmedian\<close>) is not part of this model.
\<close>

definition triangulate_at :: "kernels \<Rightarrow> mat4 list \<Rightarrow> obs list list \<Rightarrow> nat \<Rightarrow> p3 option" where
  "triangulate_at K cam_mats points ip =
     (let subp = column points ip;
          good = map (\<lambda>p. \<not> isnan (fst p)) subp
      in if 2 \<le> count_true good
         then triangulate_simple (svd_last K) (select_mask good subp) (select_mask good cam_mats)
         else Some missing3)"

definition CameraGroup_triangulate ::
  "kernels \<Rightarrow> camera list \<Rightarrow> obs list list \<Rightarrow> nat \<Rightarrow> bool \<Rightarrow> p3 list option" where
  "CameraGroup_triangulate K cams points n_points undistort =
     (if length points \<noteq> length cams then None
      else let pts = (if undistort then undistort_all K cams points else points);
               cam_mats = map (get_extrinsics_mat K) cams
           in those (map (triangulate_at K cam_mats pts) [0..<n_points]))"

text \<open>
  \<open>CameraGroup.triangulate_weighted(points, undistort, weights=\<dots>)\<close>: the weights are
  absent, a vector of length \<open>C\<close> or an array of shape \<open>(C, N)\<close>; a boolean mask on an axis
  of another length is an IndexError.
\<close>

datatype weights_arg = WNone | W1 "fl list" | W2 "fl list list"

definition weights_at :: "weights_arg \<Rightarrow> bool list \<Rightarrow> nat \<Rightarrow> fl list option" where
  "weights_at weights good ip =
     (case weights of
        WNone \<Rightarrow> Some (replicate (count_true good) (Some 1))
      | W1 ws \<Rightarrow> (if length ws = length good then Some (select_mask good ws) else None)
      | W2 wss \<Rightarrow> (if length wss = length good then Some (select_mask good (column wss ip))
                   else None))"

definition triangulate_weighted_at ::
  "kernels \<Rightarrow> mat4 list \<Rightarrow> obs list list \<Rightarrow> weights_arg \<Rightarrow> nat \<Rightarrow> p3 option" where
  "triangulate_weighted_at K cam_mats points weights ip =
     (let subp = column points ip;
          good = map (\<lambda>p. \<not> isnan (fst p)) subp
      in if 2 \<le> count_true good
         then (case weights_at weights good ip of
                 None \<Rightarrow> None
               | Some w \<Rightarrow> triangulate_weighted (svd_last K) (select_mask good subp)
                             (select_mask good cam_mats) w)
         else Some missing3)"

definition CameraGroup_triangulate_weighted ::
  "kernels \<Rightarrow> camera list \<Rightarrow> obs list list \<Rightarrow> nat \<Rightarrow> bool \<Rightarrow> weights_arg \<Rightarrow> p3 list option" where
  "CameraGroup_triangulate_weighted K cams points n_points undistort weights =
     (if length points \<noteq> length cams then None
      else let pts = (if undistort then undistort_all K cams points else points);
               cam_mats = map (get_extrinsics_mat K) cams
           in those (map (triangulate_weighted_at K cam_mats pts weights) [0..<n_points]))"


subsection \<open>Valid observations and degenerate views\<close>

text \<open>
  An observation is valid iff neither coordinate is missing; a missing observation is NaN
  in both coordinates, so in a well-formed tensor the two coordinates are missing together.
  The undistortion kernel is expected to return as many observations as it gets and to keep
  a missing coordinate missing and a number a number.
\<close>

definition valid_obs :: "obs \<Rightarrow> bool" where
  "valid_obs p = (\<not> isnan (fst p) \<and> \<not> isnan (snd p))"

definition wf_obs :: "obs \<Rightarrow> bool" where
  "wf_obs p = (isnan (fst p) = isnan (snd p))"

definition wf_points :: "obs list list \<Rightarrow> nat \<Rightarrow> bool" where
  "wf_points points n_points = list_all (\<lambda>row. length row = n_points \<and> list_all wf_obs row) points"

definition n_valid :: "obs list list \<Rightarrow> nat \<Rightarrow> nat" where
  "n_valid points ip = length (filter valid_obs (column points ip))"

definition keeps_missing :: "kernels \<Rightarrow> camera list \<Rightarrow> obs list list \<Rightarrow> bool" where
  "keeps_missing K cams points =
     list_all (\<lambda>(cam, row). length (cv_undistort K cam row) = length row \<and>
                             map (\<lambda>p. isnan (fst p)) (cv_undistort K cam row)
                               = map (\<lambda>p. isnan (fst p)) row \<and>
                             map (\<lambda>p. isnan (snd p)) (cv_undistort K cam row)
                               = map (\<lambda>p. isnan (snd p)) row)
              (zip cams points)"

text \<open>
  The rows of an extrinsics matrix that triangulation reads (\<open>mat[0]\<close>, \<open>mat[1]\<close> and
  \<open>mat[2]\<close>) hold numbers.
\<close>

definition finite_rows :: "mat4 \<Rightarrow> bool" where
  "finite_rows mat = (case mat of (m0, m1, m2, m3) \<Rightarrow> finite4 m0 \<and> finite4 m1 \<and> finite4 m2)"

definition finite_extrinsics :: "kernels \<Rightarrow> camera list \<Rightarrow> bool" where
  "finite_extrinsics K cams = list_all (\<lambda>cam. finite_rows (get_extrinsics_mat K cam)) cams"

text \<open>
  The linear system of the views of point \<open>ip\<close>: two rows for each camera with a valid
  observation, from that observation and the camera's extrinsics matrix.
\<close>

definition valid_system :: "kernels \<Rightarrow> camera list \<Rightarrow> obs list list \<Rightarrow> bool \<Rightarrow> nat \<Rightarrow> vec4 list" where
  "valid_system K cams points undistort ip =
     (let pts = (if undistort then undistort_all K cams points else points);
          mask = map valid_obs (column points ip)
      in simple_system (select_mask mask (column pts ip))
           (select_mask mask (map (get_extrinsics_mat K) cams)))"

text \<open>
  The singular value decomposition of a matrix \<open>A\<close> with four columns, stated on the reals:
  the last right singular vector is a unit vector \<open>v\<close> at which \<open>|A v|\<close> is least among the
  unit vectors. \<open>residual_sq A v\<close> is \<open>|A v|\<^sup>2\<close>.
\<close>

type_synonym rvec4 = "real \<times> real \<times> real \<times> real"

definition fl4 :: "rvec4 \<Rightarrow> vec4" where
  "fl4 v = (case v of (a, b, c, d) \<Rightarrow> (Some a, Some b, Some c, Some d))"

definition dot4 :: "vec4 \<Rightarrow> rvec4 \<Rightarrow> real" where
  "dot4 row v =
     (case (row, v) of
        ((r0, r1, r2, r3), (a, b, c, d)) \<Rightarrow>
          fl_val r0 * a + fl_val r1 * b + fl_val r2 * c + fl_val r3 * d)"

definition residual_sq :: "vec4 list \<Rightarrow> rvec4 \<Rightarrow> real" where
  "residual_sq A v = sum_list (map (\<lambda>row. (dot4 row v)\<^sup>2) A)"

definition unit4 :: "rvec4 \<Rightarrow> bool" where
  "unit4 v = (case v of (a, b, c, d) \<Rightarrow> a\<^sup>2 + b\<^sup>2 + c\<^sup>2 + d\<^sup>2 = 1)"

definition smallest_singular :: "vec4 list \<Rightarrow> rvec4 \<Rightarrow> bool" where
  "smallest_singular A v = (unit4 v \<and> (\<forall>u. unit4 u \<longrightarrow> residual_sq A v \<le> residual_sq A u))"

text \<open>
  What is expected of the decomposition on a matrix of numbers: it does not raise and
  returns such a vector.
\<close>

definition svd_contract :: "(vec4 list \<Rightarrow> vec4 option) \<Rightarrow> vec4 list \<Rightarrow> bool" where
  "svd_contract svd A = (\<exists>v. svd A = Some (fl4 v) \<and> smallest_singular A v)"

text \<open>
  The views of a point are not degenerate when every solution of their linear system, that
  is every unit vector at which \<open>|A v|\<close> is least, has a nonzero last coordinate: no solution
  is a point at infinity, as it is for parallel rays.
\<close>

definition nondegenerate :: "vec4 list \<Rightarrow> bool" where
  "nondegenerate A = (\<forall>v. smallest_singular A v \<longrightarrow> snd (snd (snd v)) \<noteq> 0)"

text \<open>
  Example kernels: the singular vector is \<open>(2, 4, 6, 2)\<close> for every system that the
  decomposition accepts, undistortion is the identity, every extrinsics matrix is the unit matrix and every point projects to
  the pixel \<open>(0, 0)\<close>.
\<close>

definition unit_mat4 :: mat4 where
  "unit_mat4 = ((Some 1, Some 0, Some 0, Some 0), (Some 0, Some 1, Some 0, Some 0),
                (Some 0, Some 0, Some 1, Some 0), (Some 0, Some 0, Some 0, Some 1))"

definition example_kernels :: kernels where
  "example_kernels =
     \<lparr>svd_last = (\<lambda>A. Some (Some 2, Some 4, Some 6, Some 2)),
      cv_undistort = (\<lambda>cam row. row),
      cv_project = (\<lambda>cam p. (Some 0, Some 0)),
      make_M = (\<lambda>r t. unit_mat4)\<rparr>"

text \<open>Two cameras and two points: the first point is seen by both, the second by one.\<close>

definition example_points :: "obs list list" where
  "example_points = [[(Some 3, Some 4), (Some 1, Some 1)], [(Some 6, Some 8), (None, None)]]"

text \<open>
  Two views of the point \<open>(0, 0, 0)\<close>: both cameras look along the \<open>z\<close> axis without
  rotation, the first from \<open>(0, 0, -1)\<close> and the second from \<open>(-1, 0, -1)\<close>, so the
  extrinsics matrices are translations by \<open>(0, 0, 1)\<close> and \<open>(1, 0, 1)\<close> and the point is seen
  at \<open>(0, 0)\<close> and at \<open>(1, 0)\<close>. A second point is seen by the first camera only. The rows of
  the linear system of the first point are \<open>view_system\<close>; its solutions are the multiples
  of \<open>(0, 0, 0, 1)\<close>.
\<close>

definition translation_mat :: "real list \<Rightarrow> mat4" where
  "translation_mat t =
     ((Some 1, Some 0, Some 0, Some (t ! 0)), (Some 0, Some 1, Some 0, Some (t ! 1)),
      (Some 0, Some 0, Some 1, Some (t ! 2)), (Some 0, Some 0, Some 0, Some 1))"

definition view_system :: "vec4 list" where
  "view_system =
     [(Some (- 1), Some 0, Some 0, Some 0), (Some 0, Some (- 1), Some 0, Some 0),
      (Some (- 1), Some 0, Some 1, Some 0), (Some 0, Some (- 1), Some 0, Some 0)]"

definition view_kernels :: kernels where
  "view_kernels =
     \<lparr>svd_last = (\<lambda>A. if A = view_system then Some (Some 0, Some 0, Some 0, Some 1) else None),
      cv_undistort = (\<lambda>cam row. row),
      cv_project = (\<lambda>cam p. (Some 0, Some 0)),
      make_M = (\<lambda>r t. translation_mat t)\<rparr>"

definition view_cams :: "camera list" where
  "view_cams = [example_pinhole\<lparr>c_rvec := [0, 0, 0], c_tvec := [0, 0, 1]\<rparr>,
                example_pinhole\<lparr>c_rvec := [0, 0, 0], c_tvec := [1, 0, 1]\<rparr>]"

definition view_points :: "obs list list" where
  "view_points = [[(Some 0, Some 0), (Some 1, Some 1)], [(Some 1, Some 0), (None, None)]]"


section \<open>Reprojection error (lines 491 to 493, 918 to 957)\<close>

text \<open>\<open>Camera.reprojection_error\<close>: observed minus projected, per point.\<close>

definition residual :: "kernels \<Rightarrow> camera \<Rightarrow> p3 \<Rightarrow> obs \<Rightarrow> obs" where
  "residual K cam p3d p2d =
     (case (p2d, cv_project K cam p3d) of
        ((x, y), (px, py)) \<Rightarrow> (fl_sub x px, fl_sub y py))"

definition Camera_reprojection_error :: "kernels \<Rightarrow> camera \<Rightarrow> p3 list \<Rightarrow> obs list \<Rightarrow> nat \<Rightarrow> obs list" where
  "Camera_reprojection_error K cam p3ds p2d n_points =
     map (\<lambda>j. residual K cam (p3ds ! j) (p2d ! j)) [0..<n_points]"

text \<open>
  \<open>CameraGroup.reprojection_error(p3ds, p2ds, mean=False)\<close> on tensors of shape \<open>(N, 3)\<close>
  and \<open>(C, N, 2)\<close>: the assertion compares the shapes; the loop over \<open>self.cameras\<close> fills
  one row of \<open>errors\<close> per camera (with more cameras than rows it is an IndexError, with
  fewer the other rows of \<open>np.empty\<close> stay uninitialised: no result in either case).
\<close>

definition reprojection_error_full ::
  "kernels \<Rightarrow> camera list \<Rightarrow> p3 list \<Rightarrow> obs list list \<Rightarrow> nat \<Rightarrow> obs list list option" where
  "reprojection_error_full K cams p3ds p2ds n_points =
     (if length p3ds \<noteq> n_points \<or> length p2ds \<noteq> length cams then None
      else Some (map (\<lambda>(cam, row). Camera_reprojection_error K cam p3ds row n_points)
                   (zip cams p2ds)))"

text \<open>\<open>np.linalg.norm\<close> over the two coordinates of a residual.\<close>

definition fl_norm2 :: "obs \<Rightarrow> fl" where
  "fl_norm2 e = (case e of (Some x, Some y) \<Rightarrow> Some (sqrt (x\<^sup>2 + y\<^sup>2)) | _ \<Rightarrow> None)"

text \<open>
  The branch \<open>mean=True\<close> for one point, on the norms of its residuals in all cameras:
  the NaN entries are set to 0, \<open>denom\<close> counts the others and becomes NaN below 1.5, and
  the score is the sum divided by \<open>denom\<close>.
\<close>

definition mean_over_cameras :: "fl list \<Rightarrow> fl" where
  "mean_over_cameras errors_norm =
     (let good = map (\<lambda>e. \<not> isnan e) errors_norm;
          zeroed = map (\<lambda>e. case e of None \<Rightarrow> 0 | Some v \<Rightarrow> v) errors_norm;
          denom = real (count_true good)
      in if denom < 3 / 2 then None else Some (sum_list zeroed / denom))"

definition reprojection_error_mean ::
  "kernels \<Rightarrow> camera list \<Rightarrow> p3 list \<Rightarrow> obs list list \<Rightarrow> nat \<Rightarrow> fl list option" where
  "reprojection_error_mean K cams p3ds p2ds n_points =
     (case reprojection_error_full K cams p3ds p2ds n_points of
        None \<Rightarrow> None
      | Some errors \<Rightarrow>
          Some (map (\<lambda>j. mean_over_cameras (map fl_norm2 (column errors j))) [0..<n_points]))"

text \<open>
  The score in the words of the specification: the average, over the cameras with a valid
  observation of point \<open>j\<close>, of the Euclidean norm of observed minus projected.
\<close>

definition euclid_residual :: "kernels \<Rightarrow> camera \<Rightarrow> p3 \<Rightarrow> obs \<Rightarrow> real" where
  "euclid_residual K cam p3d p2d =
     sqrt ((fl_val (fst p2d) - fl_val (fst (cv_project K cam p3d)))\<^sup>2
         + (fl_val (snd p2d) - fl_val (snd (cv_project K cam p3d)))\<^sup>2)"

definition spec_mean_error :: "kernels \<Rightarrow> camera list \<Rightarrow> p3 list \<Rightarrow> obs list list \<Rightarrow> nat \<Rightarrow> real" where
  "spec_mean_error K cams p3ds p2ds j =
     (let views = filter (\<lambda>(cam, row). valid_obs (row ! j)) (zip cams p2ds)
      in sum_list (map (\<lambda>(cam, row). euclid_residual K cam (p3ds ! j) (row ! j)) views)
           / real (length views))"

definition projects :: "kernels \<Rightarrow> camera list \<Rightarrow> p3 \<Rightarrow> bool" where
  "projects K cams p3d = list_all (\<lambda>cam. valid_obs (cv_project K cam p3d)) cams"


section \<open>CameraGroup.triangulate_possible (lines 810 to 897)\<close>

text \<open>
  The tensor of shape \<open>(C, N, P, 2)\<close> is a list of \<open>C\<close> rows of \<open>N\<close> points with \<open>P\<close>
  candidate observations each. \<open>all_iters[point]\<close> is built from
  \<open>np.where(~np.isnan(points[:, :, :, 0]))\<close>, whose triples come in lexicographic order:
  for a point it holds, for each camera with a candidate whose \<open>x\<close> is a number and in
  camera order, the pairs \<open>(cam_num, possible_num)\<close> in candidate order, followed by
  \<open>None\<close>. A point without any candidate gets the empty dictionary.
\<close>

definition candidates :: "obs list list list \<Rightarrow> nat \<Rightarrow> nat \<Rightarrow> nat \<Rightarrow> (nat \<times> nat) list" where
  "candidates points n_possible j c =
     map (\<lambda>x. (c, x)) (filter (\<lambda>x. \<not> isnan (fst (points ! c ! j ! x))) [0..<n_possible])"

definition all_iters :: "obs list list list \<Rightarrow> nat \<Rightarrow> nat \<Rightarrow> (nat \<times> nat) option list list" where
  "all_iters points n_possible j =
     map (\<lambda>cs. map Some cs @ [None])
       (filter (\<lambda>cs. cs \<noteq> []) (map (candidates points n_possible j) [0..<length points]))"

text \<open>\<open>picked = [p for p in picked if p is not None]\<close>.\<close>

definition drop_none :: "'a option list \<Rightarrow> 'a list" where
  "drop_none picked = concat (map (\<lambda>p. case p of None \<Rightarrow> [] | Some v \<Rightarrow> [v]) picked)"

text \<open>
  The score of a combination: the picked observations \<open>points[cnums, point_ix, xnums]\<close> are
  triangulated by the copied cameras \<open>subset_cameras(cnums)\<close> through the single-point
  entry of \<open>triangulate\<close> (a \<open>(k, 2)\<close> array is reshaped to \<open>(k, 1, 2)\<close> and the first output
  row is returned), and the error is \<open>reprojection_error(p3d, pts, mean=True)\<close> on the same
  single point, a float. The camera indices come from \<open>range(n_cams)\<close>, with \<open>n_cams\<close> the
  asserted number of cameras.
\<close>

definition score_combination ::
  "kernels \<Rightarrow> camera list \<Rightarrow> obs list list list \<Rightarrow> bool \<Rightarrow> nat \<Rightarrow> (nat \<times> nat) list
   \<Rightarrow> (p3 \<times> fl \<times> obs list) option" where
  "score_combination K cams points undistort j picked =
     (let pts = map (\<lambda>(c, x). points ! c ! j ! x) picked;
          cc = map (\<lambda>(c, x). cams ! c) picked;
          p2ds = map (\<lambda>p. [p]) pts
      in case CameraGroup_triangulate K cc p2ds 1 undistort of
           None \<Rightarrow> None
         | Some p3ds \<Rightarrow>
             (case reprojection_error_mean K cc p3ds p2ds 1 of
                None \<Rightarrow> None
              | Some errs \<Rightarrow> Some (p3ds ! 0, errs ! 0, pts)))"

text \<open>
  The dictionary \<open>best_point\<close>, and the loop over \<open>itertools.product\<close> with its state
  \<open>best_point\<close> (\<open>None\<close> at the start) and \<open>best_error\<close> (200 at the start). A combination
  with fewer than \<open>min_cams\<close> picks is skipped unless it picks all \<open>n_cams_max\<close> cameras; a
  combination whose error is below \<open>best_error\<close> becomes the best one, and the loop breaks
  when that error is also below \<open>threshold\<close>. \<open>score\<close> is the scoring of a combination; its
  exception ends the call.
\<close>

record best_point =
  bp_error :: fl
  bp_point :: p3
  bp_points :: "obs list"
  bp_picked :: "(nat \<times> nat) list"
  bp_joint_ix :: nat

fun search ::
  "((nat \<times> nat) list \<Rightarrow> (p3 \<times> fl \<times> obs list) option) \<Rightarrow> nat \<Rightarrow> nat \<Rightarrow> real \<Rightarrow> nat
   \<Rightarrow> (nat \<times> nat) option list list \<Rightarrow> best_point option \<times> fl \<Rightarrow> best_point option option" where
  "search score min_cams n_cams_max threshold point_ix [] st = Some (fst st)"
| "search score min_cams n_cams_max threshold point_ix (combo # rest) st =
     (let picked = drop_none combo
      in if length picked < min_cams \<and> length picked \<noteq> n_cams_max
         then search score min_cams n_cams_max threshold point_ix rest st
         else (case score picked of
                 None \<Rightarrow> None
               | Some (p3d, err, pts) \<Rightarrow>
                   if fl_less err (snd st)
                   then (let best = \<lparr>bp_error = err, bp_point = p3d, bp_points = pts,
                                     bp_picked = picked, bp_joint_ix = point_ix\<rparr>
                         in if fl_less err (Some threshold) then Some (Some best)
                            else search score min_cams n_cams_max threshold point_ix rest
                                   (Some best, err))
                   else search score min_cams n_cams_max threshold point_ix rest st))"

definition select_point ::
  "((nat \<times> nat) list \<Rightarrow> (p3 \<times> fl \<times> obs list) option) \<Rightarrow> nat \<Rightarrow> real \<Rightarrow> nat
   \<Rightarrow> (nat \<times> nat) option list list \<Rightarrow> best_point option option" where
  "select_point score min_cams threshold point_ix iters =
     search score min_cams (length iters) threshold point_ix (product_lists iters)
       (None, Some 200)"

text \<open>
  The four outputs and the block that stores the best point of \<open>point_ix\<close>:
  \<open>out[point_ix]\<close>, \<open>picked_vals[cnums, point_ix, xnums] = True\<close>, \<open>errors[point_ix]\<close> and
  \<open>points_2d[cnums, point_ix]\<close>.
\<close>

record tp_result =
  tp_out :: "p3 list"
  tp_picked_vals :: "bool list list list"
  tp_points_2d :: "obs list list"
  tp_errors :: "fl list"

definition tp_init :: "nat \<Rightarrow> nat \<Rightarrow> nat \<Rightarrow> tp_result" where
  "tp_init n_cams n_points n_possible =
     \<lparr>tp_out = replicate n_points missing3,
      tp_picked_vals = replicate n_cams (replicate n_points (replicate n_possible False)),
      tp_points_2d = replicate n_cams (replicate n_points (None, None)),
      tp_errors = replicate n_points (Some 0)\<rparr>"

definition mark_picked :: "nat \<Rightarrow> nat \<times> nat \<Rightarrow> bool list list list \<Rightarrow> bool list list list" where
  "mark_picked j cx pv = (case cx of (c, x) \<Rightarrow> pv[c := (pv ! c)[j := (pv ! c ! j)[x := True]]])"

definition put_point_2d :: "nat \<Rightarrow> (nat \<times> nat) \<times> obs \<Rightarrow> obs list list \<Rightarrow> obs list list" where
  "put_point_2d j cxp pd = (case cxp of ((c, x), p) \<Rightarrow> pd[c := (pd ! c)[j := p]])"

definition store_best :: "nat \<Rightarrow> best_point \<Rightarrow> tp_result \<Rightarrow> tp_result" where
  "store_best j best r =
     \<lparr>tp_out = (tp_out r)[j := bp_point best],
      tp_picked_vals = fold (mark_picked j) (bp_picked best) (tp_picked_vals r),
      tp_points_2d = fold (put_point_2d j) (zip (bp_picked best) (bp_points best)) (tp_points_2d r),
      tp_errors = (tp_errors r)[j := bp_error best]\<rparr>"

fun tp_loop ::
  "(nat \<Rightarrow> best_point option option) \<Rightarrow> nat list \<Rightarrow> tp_result \<Rightarrow> tp_result option" where
  "tp_loop sel [] r = Some r"
| "tp_loop sel (j # js) r =
     (case sel j of
        None \<Rightarrow> None
      | Some None \<Rightarrow> tp_loop sel js r
      | Some (Some best) \<Rightarrow> tp_loop sel js (store_best j best r))"

text \<open>What the loop does for the point \<open>point_ix\<close>.\<close>

definition select_at ::
  "kernels \<Rightarrow> camera list \<Rightarrow> obs list list list \<Rightarrow> nat \<Rightarrow> bool \<Rightarrow> nat \<Rightarrow> real \<Rightarrow> nat
   \<Rightarrow> best_point option option" where
  "select_at K cams points n_possible undistort min_cams threshold point_ix =
     select_point (score_combination K cams points undistort point_ix) min_cams threshold
       point_ix (all_iters points n_possible point_ix)"

definition triangulate_possible ::
  "kernels \<Rightarrow> camera list \<Rightarrow> obs list list list \<Rightarrow> nat \<Rightarrow> nat \<Rightarrow> bool \<Rightarrow> nat \<Rightarrow> real
   \<Rightarrow> tp_result option" where
  "triangulate_possible K cams points n_points n_possible undistort min_cams threshold =
     (if length points \<noteq> length cams then None
      else tp_loop (select_at K cams points n_possible undistort min_cams threshold)
             [0..<n_points] (tp_init (length points) n_points n_possible))"


subsection \<open>The selection in the words of the specification\<close>

text \<open>
  The combinations that are scored, in enumeration order: the Cartesian product of the
  per-camera choices with the missing picks dropped, without the combinations of fewer than
  \<open>min_cams\<close> picks that do not pick every observing camera.
\<close>

definition keep_combos ::
  "nat \<Rightarrow> nat \<Rightarrow> (nat \<times> nat) option list list \<Rightarrow> (nat \<times> nat) list list" where
  "keep_combos min_cams n_cams_max combos =
     filter (\<lambda>picked. \<not> (length picked < min_cams \<and> length picked \<noteq> n_cams_max))
       (map drop_none combos)"

definition kept_combinations :: "nat \<Rightarrow> (nat \<times> nat) option list list \<Rightarrow> (nat \<times> nat) list list" where
  "kept_combinations min_cams iters = keep_combos min_cams (length iters) (product_lists iters)"

text \<open>The prefix of a list up to and including the first element that satisfies \<open>P\<close>.\<close>

fun upto_first :: "('a \<Rightarrow> bool) \<Rightarrow> 'a list \<Rightarrow> 'a list" where
  "upto_first P [] = []"
| "upto_first P (x # xs) = (if P x then [x] else x # upto_first P xs)"

text \<open>The error that the scoring gives a combination (NaN when it has none).\<close>

definition error_of ::
  "((nat \<times> nat) list \<Rightarrow> (p3 \<times> fl \<times> obs list) option) \<Rightarrow> (nat \<times> nat) list \<Rightarrow> fl" where
  "error_of score picked = (case score picked of None \<Rightarrow> None | Some (p3d, err, pts) \<Rightarrow> err)"

text \<open>
  As the claim states it, the enumeration stops at the first combination whose error is
  below \<open>threshold\<close>. In the code the test sits inside the branch that has just lowered
  \<open>best_error\<close>, so the enumeration stops at the first combination whose error is below
  \<open>threshold\<close> and below the bound of 200.
\<close>

definition enumerated_as_stated ::
  "((nat \<times> nat) list \<Rightarrow> (p3 \<times> fl \<times> obs list) option) \<Rightarrow> nat \<Rightarrow> real
   \<Rightarrow> (nat \<times> nat) option list list \<Rightarrow> (nat \<times> nat) list list" where
  "enumerated_as_stated score min_cams threshold iters =
     upto_first (\<lambda>picked. fl_less (error_of score picked) (Some threshold))
       (kept_combinations min_cams iters)"

definition stops_at ::
  "((nat \<times> nat) list \<Rightarrow> (p3 \<times> fl \<times> obs list) option) \<Rightarrow> real \<Rightarrow> (nat \<times> nat) list \<Rightarrow> bool" where
  "stops_at score threshold picked =
     (fl_less (error_of score picked) (Some threshold) \<and>
      fl_less (error_of score picked) (Some 200))"

definition enumerated ::
  "((nat \<times> nat) list \<Rightarrow> (p3 \<times> fl \<times> obs list) option) \<Rightarrow> nat \<Rightarrow> real
   \<Rightarrow> (nat \<times> nat) option list list \<Rightarrow> (nat \<times> nat) list list" where
  "enumerated score min_cams threshold iters =
     upto_first (stops_at score threshold) (kept_combinations min_cams iters)"

text \<open>
  Position \<open>k\<close> holds the lowest error of the list, and is the first position to do so: no
  entry is below it, and no earlier entry is as low.
\<close>

definition fl_le :: "fl \<Rightarrow> fl \<Rightarrow> bool" where
  "fl_le a b = (case (a, b) of (Some x, Some y) \<Rightarrow> x \<le> y | _ \<Rightarrow> False)"

definition first_lowest :: "fl list \<Rightarrow> nat \<Rightarrow> bool" where
  "first_lowest es k =
     (k < length es \<and> (\<forall>i<length es. \<not> fl_less (es ! i) (es ! k)) \<and>
      (\<forall>i<k. \<not> fl_le (es ! i) (es ! k)))"

text \<open>The dictionary \<open>best_point\<close> made from a scored combination.\<close>

definition best_of ::
  "((nat \<times> nat) list \<Rightarrow> (p3 \<times> fl \<times> obs list) option) \<Rightarrow> nat \<Rightarrow> (nat \<times> nat) list
   \<Rightarrow> best_point option" where
  "best_of score point_ix picked =
     (case score picked of
        None \<Rightarrow> None
      | Some (p3d, err, pts) \<Rightarrow>
          Some \<lparr>bp_error = err, bp_point = p3d, bp_points = pts, bp_picked = picked,
                bp_joint_ix = point_ix\<rparr>)"

text \<open>
  The outcome for a list of enumerated combinations, a bound on the error and the best
  point held before: when no combination is below the bound the earlier best point stays,
  otherwise the result is the combination with the lowest error, the first one on ties,
  and its error is below the bound.
\<close>

definition lowest_below ::
  "((nat \<times> nat) list \<Rightarrow> (p3 \<times> fl \<times> obs list) option) \<Rightarrow> nat \<Rightarrow> (nat \<times> nat) list list \<Rightarrow> fl
   \<Rightarrow> best_point option \<Rightarrow> best_point option \<Rightarrow> bool" where
  "lowest_below score point_ix en bound before r =
     (if \<forall>p\<in>set en. \<not> fl_less (error_of score p) bound then r = before
      else \<exists>k. first_lowest (map (error_of score) en) k \<and>
               r = best_of score point_ix (en ! k) \<and>
               fl_less (error_of score (en ! k)) bound)"

text \<open>
  Two cameras, one point, two candidates in the first camera and one in the second. With
  the example kernels the combination of the first candidates scores 250 and the
  combination of the second candidate of camera 0 with the candidate of camera 1 scores 100.
\<close>

definition example_candidates :: "obs list list list" where
  "example_candidates =
     [[[(Some 400, Some 0), (Some 100, Some 0)]], [[(Some 100, Some 0), (None, None)]]]"

definition example_cams :: "camera list" where
  "example_cams = [example_pinhole, example_pinhole]"

text \<open>The best point that the search returns for the example with \<open>threshold = 300\<close>.\<close>

definition example_best :: best_point where
  "example_best = \<lparr>bp_error = Some 100, bp_point = (Some 1, Some 2, Some 3),
       bp_points = [(Some 100, Some 0), (Some 100, Some 0)], bp_picked = [(0, 1), (1, 0)],
       bp_joint_ix = 0\<rparr>"

text \<open>
  The entries of the four outputs for one point: \<open>out[j]\<close>, \<open>picked_vals[:, j]\<close>,
  \<open>points_2d[:, j]\<close> and \<open>errors[j]\<close>.
\<close>

definition point_slice :: "tp_result \<Rightarrow> nat \<Rightarrow> p3 \<times> bool list list \<times> obs list \<times> fl" where
  "point_slice r j =
     (tp_out r ! j, map (\<lambda>rows. rows ! j) (tp_picked_vals r),
      map (\<lambda>rows. rows ! j) (tp_points_2d r), tp_errors r ! j)"

text \<open>
  Two cameras and one point with one candidate each, far from the pixel \<open>(0, 0)\<close> that the
  example kernels project to: the only kept combination scores 350.
\<close>

definition example_far :: "obs list list list" where
  "example_far = [[[(Some 400, Some 0)]], [[(Some 300, Some 0)]]]"

text \<open>
  Two cameras and one point with one candidate each; the candidate of the first camera has
  a number for \<open>x\<close> and NaN for \<open>y\<close>, so it counts as a candidate and the linear system of the
  only kept combination has rows with NaN.
\<close>

definition example_half :: "obs list list list" where
  "example_half = [[[(Some 3, None)]], [[(Some 6, Some 8)]]]"


section \<open>CameraGroup.bundle_adjust_iter (lines 959 to 1086)\<close>

text \<open>
  The driver works on the group's cameras and on numpy's random state; together they are
  the world \<open>'w\<close>. A sample \<open>'s\<close> is the pair of the 2D points and the board data \<open>extra\<close>.
  The steps that the driver calls are taken as given:
  \<^item> \<open>e_resample_points s n_samp\<close> is \<open>resample_points(p2ds, extra, n_samp)\<close>, which draws
    random numbers;
  \<^item> \<open>e_errors s\<close> is \<open>triangulate\<close>, \<open>reprojection_error(mean=True)\<close> and
    \<open>get_error_dict\<close> on the sample: the per-point errors \<open>errors_norm\<close> and, for each
    camera pair of the dictionary, the 15th and 75th percentile;
  \<^item> \<open>e_subset s good\<close> is \<open>p2ds[:, good]\<close> with \<open>subset_extra(extra, good)\<close>;
  \<^item> \<open>e_median\<close> is \<open>np.median\<close>;
  \<^item> \<open>e_bundle_adjust loss max_nfev s\<close> is \<open>self.bundle_adjust\<close> on the sample;
  \<^item> \<open>e_average_error s\<close> is \<open>self.average_error(p2ds, median=True)\<close>;
  \<^item> \<open>e_shape_ok s\<close> is the assertion \<open>p2ds.shape[0] == len(self.cameras)\<close>.
\<close>

datatype loss = Linear | SoftL1 | Huber | Cauchy | Arctan

record ('w, 's) iter_env =
  e_resample_points :: "'s \<Rightarrow> nat \<Rightarrow> 'w \<Rightarrow> 's \<times> 'w"
  e_errors :: "'s \<Rightarrow> 'w \<Rightarrow> fl list \<times> (real \<times> real) list"
  e_subset :: "'s \<Rightarrow> bool list \<Rightarrow> 's"
  e_median :: "fl list \<Rightarrow> fl"
  e_bundle_adjust :: "loss \<Rightarrow> nat \<Rightarrow> 's \<Rightarrow> 'w \<Rightarrow> 'w"
  e_average_error :: "'s \<Rightarrow> 'w \<Rightarrow> fl"
  e_shape_ok :: "'s \<Rightarrow> 'w \<Rightarrow> bool"

text \<open>\<open>mus = np.exp(np.linspace(np.log(start_mu), np.log(end_mu), num=n_iters))\<close>.\<close>

definition mus_schedule :: "real \<Rightarrow> real \<Rightarrow> nat \<Rightarrow> real list" where
  "mus_schedule start_mu end_mu n_iters =
     map (\<lambda>i. exp (if n_iters = 1 then ln start_mu
                    else ln start_mu + real i * ((ln end_mu - ln start_mu) / real (n_iters - 1))))
       [0..<n_iters]"

text \<open>
  The loop over \<open>error_dict.items()\<close>: \<open>max_error\<close> is the largest 75th percentile and
  \<open>min_error\<close> the largest 15th percentile over the camera pairs, both starting at 0; then
  \<open>mu = max(min(max_error, mus[i]), min_error)\<close>.
\<close>

definition max_error :: "(real \<times> real) list \<Rightarrow> real" where
  "max_error error_dict = fold (\<lambda>percents m. max (snd percents) m) error_dict 0"

definition min_error :: "(real \<times> real) list \<Rightarrow> real" where
  "min_error error_dict = fold (\<lambda>percents m. max (fst percents) m) error_dict 0"

definition clamp_mu :: "(real \<times> real) list \<Rightarrow> real \<Rightarrow> real" where
  "clamp_mu error_dict mu_i = max (min (max_error error_dict) mu_i) (min_error error_dict)"

text \<open>
  What a round does is recorded, in the order in which the code does it: \<open>Kept\<close> when the
  points below \<open>mu\<close> have been selected (with the percentiles, the errors, \<open>mu\<close> and the
  mask), \<open>Check\<close> when the median error is compared with \<open>error_threshold\<close>, \<open>Solve\<close> when
  \<open>bundle_adjust\<close> is called (with its loss and \<open>max_nfev\<close>).
\<close>

datatype event =
  Kept nat "(real \<times> real) list" "fl list" real "bool list"
| Check nat fl
| Solve nat loss nat

text \<open>The loop \<open>for i in range(n_iters)\<close>, lines 1003 to 1045.\<close>

fun ba_rounds ::
  "('w, 's) iter_env \<Rightarrow> real \<Rightarrow> nat \<Rightarrow> nat \<Rightarrow> nat \<Rightarrow> 's \<Rightarrow> real list \<Rightarrow> nat list \<Rightarrow> 'w
   \<Rightarrow> 'w \<times> event list" where
  "ba_rounds E error_threshold max_nfev n_samp_iter n_samp_full p2ds_full mus [] w = (w, [])"
| "ba_rounds E error_threshold max_nfev n_samp_iter n_samp_full p2ds_full mus (i # rest) w =
     (let (p2ds, w1) = e_resample_points E p2ds_full n_samp_full w;
          (errors_norm, error_dict) = e_errors E p2ds w1;
          mu = clamp_mu error_dict (mus ! i);
          good = map (\<lambda>e. fl_less e (Some mu)) errors_norm;
          (p2ds_samp, w2) = e_resample_points E (e_subset E p2ds good) n_samp_iter w1;
          error = e_median E errors_norm;
          seen = [Kept i error_dict errors_norm mu good, Check i error]
      in if fl_less error (Some error_threshold) then (w2, seen)
         else (let w3 = e_bundle_adjust E Linear max_nfev p2ds_samp w2;
                   (w4, later) = ba_rounds E error_threshold max_nfev n_samp_iter n_samp_full
                                   p2ds_full mus rest w3
               in (w4, seen @ [Solve i Linear max_nfev] @ later)))"

text \<open>
  The whole call: the first resampling (its error is only printed), the rounds, and the
  final solve on the points below \<open>mu = max(max(max_error, end_mu), min_error)\<close> with
  \<open>max_nfev = max(200, max_nfev)\<close>. It returns the median error, the world and the record
  of events; the final solve is recorded under the index \<open>n_iters\<close>.
\<close>

definition bundle_adjust_iter ::
  "('w, 's) iter_env \<Rightarrow> 's \<Rightarrow> nat \<Rightarrow> real \<Rightarrow> real \<Rightarrow> nat \<Rightarrow> nat \<Rightarrow> nat \<Rightarrow> real \<Rightarrow> 'w
   \<Rightarrow> (fl \<times> 'w \<times> event list) option" where
  "bundle_adjust_iter E p2ds_full n_iters start_mu end_mu max_nfev n_samp_iter n_samp_full
     error_threshold w =
     (if \<not> e_shape_ok E p2ds_full w then None
      else
        let (p2ds0, w0) = e_resample_points E p2ds_full n_samp_full w;
            mus = mus_schedule start_mu end_mu n_iters;
            (w1, tr) = ba_rounds E error_threshold max_nfev n_samp_iter n_samp_full p2ds_full
                         mus [0..<n_iters] w0;
            (p2ds, w2) = e_resample_points E p2ds_full n_samp_full w1;
            (errors_norm, error_dict) = e_errors E p2ds w2;
            mu = max (max (max_error error_dict) end_mu) (min_error error_dict);
            good = map (\<lambda>e. fl_less e (Some mu)) errors_norm;
            w3 = e_bundle_adjust E Linear (max 200 max_nfev) (e_subset E p2ds good) w2
        in Some (e_average_error E p2ds w3, w3,
                 tr @ [Kept n_iters error_dict errors_norm mu good,
                       Solve n_iters Linear (max 200 max_nfev)]))"







section \<open>Theorems\<close>

lemma np_assign_same: "length v = n \<Longrightarrow> np_assign n v = Some v"
  by (simp add: np_assign_def)

lemma pinhole_roundtrip:
  assumes "length (c_rvec cam) = 3" "length (c_tvec cam) = 3" "length (c_dist cam) = 5"
    and "upper_unit (c_matrix cam)"
  shows "do { p \<leftarrow> Camera_get_params cam True; Camera_set_params p True cam } = Some cam"
proof -
  obtain fx s cx fy cy where m: "c_matrix cam = [[fx, s, cx], [0, fy, cy], [0, 0, 1]]"
    using assms(4) by (auto simp: upper_unit_def)
  obtain k1 k2 p1 p2 k3 where d: "c_dist cam = [k1, k2, p1, p2, k3]"
    using assms(3)
    by (cases "c_dist cam"; cases "tl (c_dist cam)"; cases "tl (tl (c_dist cam))";
        cases "tl (tl (tl (c_dist cam)))"; cases "tl (tl (tl (tl (c_dist cam))))") auto
  have g: "Camera_get_params cam True
             = Some ((c_rvec cam @ c_tvec cam) @ ([fx, fy, cx, cy, s] @ [k1, k2, p1, p2, k3]))"
    using assms(1,2) by (simp add: Camera_get_params_def np_assign_same m d mat_at_def)
  show ?thesis
    using assms(1,2)
    by (simp add: g Camera_set_params_def vec_at_def nth_append m d)
qed

lemma fisheye_roundtrip:
  assumes "length (c_rvec cam) = 3" "length (c_tvec cam) = 3" "length (c_dist cam) = 4"
    and "is_3x3 (c_matrix cam)"
  shows "do { p \<leftarrow> FisheyeCamera_get_params cam False; FisheyeCamera_set_params p False cam }
           = Some (fisheye_reduced cam)"
proof -
  have len: "length (c_matrix cam) = 3" "length (c_matrix cam ! 0) = 3"
    "length (c_matrix cam ! 1) = 3"
    using assms(4) by (auto simp: is_3x3_def list_all_length)
  have ne: "c_matrix cam \<noteq> []" "c_matrix cam ! 0 \<noteq> []"
    using len by auto
  show ?thesis
    using assms(1,2,3) len ne
    by (simp add: FisheyeCamera_get_params_def FisheyeCamera_set_params_def np_assign_same
        get_focal_length_def set_focal_length_def mat_at_def mat_set_def vec_at_def
        fisheye_reduced_def nth_append Let_def)
qed

text \<open>
  Claim C2, as amended: for a camera in the expected state, the round trip through the
  parameter vector with intrinsics included is the identity on a pinhole Camera; on a
  FisheyeCamera it keeps rotation, translation, name and size, replaces \<open>fx\<close> and \<open>fy\<close> by
  their mean and zeroes the distortion slots that the parameter vector does not carry.
\<close>

theorem C2_roundtrip_params:
  "wf_camera cam \<Longrightarrow>
   roundtrip_params cam
     = Some (case c_class cam of Pinhole \<Rightarrow> cam | Fisheye \<Rightarrow> fisheye_reduced cam)"
  by (cases "c_class cam")
     (simp_all add: wf_camera_def roundtrip_params_def pinhole_roundtrip fisheye_roundtrip)

theorem C2_roundtrip_params_witness:
  "wf_camera example_pinhole \<and> roundtrip_params example_pinhole = Some example_pinhole"
proof -
  have wf: "wf_camera example_pinhole"
    by (simp add: wf_camera_def example_pinhole_def upper_unit_def)
  show ?thesis
    using wf C2_roundtrip_params [OF wf] by (simp add: example_pinhole_def)
qed

text \<open>
  Claim C2 as stated fails on a FisheyeCamera: with \<open>fx = 1\<close>, \<open>fy = 3\<close> and distortions
  \<open>[1, 2, 3, 4]\<close> the round trip returns a camera with \<open>fx = fy = 2\<close> and distortions
  \<open>[1, 0, 0, 0]\<close>.
\<close>

theorem C2_fisheye_counterexample:
  "wf_camera example_fisheye \<and>
   roundtrip_params example_fisheye
     = Some (example_fisheye\<lparr>c_matrix := [[2, 0, 0], [0, 2, 0], [0, 0, 1]],
                              c_dist := [1, 0, 0, 0]\<rparr>) \<and>
   roundtrip_params example_fisheye \<noteq> Some example_fisheye"
  by (simp add: wf_camera_def is_3x3_def example_fisheye_def roundtrip_params_def
      FisheyeCamera_get_params_def FisheyeCamera_set_params_def np_assign_def
      get_focal_length_def set_focal_length_def mat_at_def mat_set_def vec_at_def)

text \<open>
  Claim C1 at a group of one pinhole camera: with \<open>only_extrinsics=True\<close> the packed block
  has 16 entries and the commit rewrites the intrinsic matrix (here \<open>fx\<close> moves from 800 to
  999); with \<open>only_extrinsics=False\<close> the block has 6 entries and the same solver leaves
  matrix and distortions alone. The flag reaches \<open>Camera.get_params\<close> and
  \<open>Camera.set_params\<close> as \<open>optimize_intrinsics\<close>, so its meaning is inverted.
\<close>

theorem C1_only_extrinsics_inverted:
  "map_option snd (initialize_params_bundle [example_pinhole] [] [] True) = Some 16 \<and>
   map_option snd (initialize_params_bundle [example_pinhole] [] [] False) = Some 6 \<and>
   bundle_adjust example_solver 1 [] [] None True [example_pinhole]
     = Some [example_pinhole\<lparr>c_matrix := [[999, 0, 320], [0, 810, 240], [0, 0, 1]]\<rparr>] \<and>
   bundle_adjust example_solver 1 [] [] None False [example_pinhole]
     = Some [example_pinhole]"
  by (simp add: initialize_params_bundle_def bundle_adjust_def commit_params_def
      example_solver_def example_pinhole_def get_params_def set_params_def
      Camera_get_params_def Camera_set_params_def np_assign_def mat_at_def vec_at_def)

text \<open>
  Claim C8 at a group of eleven cameras named \<open>0\<close> to \<open>10\<close>: the dump writes the keys
  \<open>cam_0\<close> to \<open>cam_10\<close> in camera order, and the load, which sorts the keys as strings,
  returns the cameras in the order \<open>0, 1, 10, 2, \<dots>, 9\<close>. A group of ten cameras comes
  back in its own order.
\<close>

theorem C8_load_sorts_keys_as_strings:
  "map_option (map c_name \<circ> cameras) (Option.bind (dump (example_group 11)) load)
     = Some (map str_nat [0, 1, 10, 2, 3, 4, 5, 6, 7, 8, 9]) \<and>
   map c_name (cameras (example_group 11)) = map str_nat [0, 1, 2, 3, 4, 5, 6, 7, 8, 9, 10] \<and>
   str_nat 10 = ''10'' \<and>
   map_option (map c_name \<circ> cameras) (Option.bind (dump (example_group 10)) load)
     = Some (map c_name (cameras (example_group 10)))"
  by code_simp

text \<open>
  Claim C4 at a parent group of one camera: the sub-group returned by
  \<open>subset_cameras([0])\<close> has a new camera object (address 3) but the parent's metadata
  dictionary (address 2). Setting a metadata item through the sub-group changes what the
  parent reads; so does an item assignment on the size list, which the copy shares;
  setting the rotation of the sub-group's camera leaves the parent's camera alone.
\<close>

theorem C4_subset_shares_metadata:
  "map_option snd (subset_cameras example_store example_parent [0])
     = Some \<lparr>g_cameras = [3], g_metadata = g_metadata example_parent\<rparr> \<and>
   do { (h1, sub) \<leftarrow> subset_cameras example_store example_parent [0];
        read_metadata h1 example_parent } = Some [(''session'', ''a'')] \<and>
   do { (h1, sub) \<leftarrow> subset_cameras example_store example_parent [0];
        h2 \<leftarrow> metadata_setitem h1 sub ''session'' ''b'';
        read_metadata h2 example_parent } = Some [(''session'', ''b'')] \<and>
   do { (h1, sub) \<leftarrow> subset_cameras example_store example_parent [0];
        h2 \<leftarrow> camera_size_setitem h1 sub 0 0 1;
        read_size h2 example_parent 0 } = Some [1, 480] \<and>
   do { (h1, sub) \<leftarrow> subset_cameras example_store example_parent [0];
        h2 \<leftarrow> camera_set_rotation h1 sub 0 [9, 9, 9];
        read_rotation h2 example_parent 0 } = Some [1, 2, 3]"
  by (simp add: subset_cameras_def Camera_copy_def py_index_def example_store_def
      example_parent_def metadata_setitem_def read_metadata_def dict_set_def
      camera_size_setitem_def read_size_def camera_set_rotation_def read_rotation_def)


lemma fl_mul_one: "fl_mul (Some 1) a = a"
  by (cases a) (simp_all add: fl_mul_def)

lemma scale4_one: "scale4 (Some 1) v = v"
  by (cases v) (simp add: scale4_def fl_mul_one)

lemma weighted_rows_one: "weighted_rows p mat (Some 1) = simple_rows p mat"
  by (cases p; cases mat) (simp add: weighted_rows_def simple_rows_def scale4_one)

lemma triangulate_weighted_ones:
  assumes "\<forall>i<length camera_mats. weights ! i = Some 1"
  shows "triangulate_weighted svd points camera_mats weights
           = triangulate_simple svd points camera_mats"
proof -
  have "map (\<lambda>i. weighted_rows (points ! i) (camera_mats ! i) (weights ! i)) [0..<length camera_mats]
        = map (\<lambda>i. simple_rows (points ! i) (camera_mats ! i)) [0..<length camera_mats]"
    using assms by (simp add: weighted_rows_one)
  then have eq: "weighted_system points camera_mats weights = simple_system points camera_mats"
    unfolding weighted_system_def simple_system_def by (rule arg_cong)
  show ?thesis
    unfolding triangulate_weighted_def triangulate_simple_def eq by (rule refl)
qed

lemma length_select_mask: "length good \<le> length xs \<Longrightarrow> length (select_mask good xs) = count_true good"
proof (induction good arbitrary: xs)
  case Nil
  then show ?case by (simp add: select_mask_def count_true_def)
next
  case (Cons b good)
  then obtain x xs' where "xs = x # xs'" by (cases xs) auto
  with Cons show ?case by (simp add: select_mask_def count_true_def)
qed

lemma triangulate_weighted_at_none:
  assumes "length points = length cam_mats"
  shows "triangulate_weighted_at K cam_mats points WNone = triangulate_at K cam_mats points"
proof (rule ext)
  fix ip
  let ?good = "map (\<lambda>p. \<not> isnan (fst p)) (column points ip)"
  have "length (select_mask ?good cam_mats) = count_true ?good"
    using assms by (simp add: length_select_mask column_def)
  then show "triangulate_weighted_at K cam_mats points WNone ip = triangulate_at K cam_mats points ip"
    by (simp add: triangulate_weighted_at_def triangulate_at_def weights_at_def Let_def
        triangulate_weighted_ones)
qed

lemma group_triangulate_weighted_none: "CameraGroup_triangulate_weighted K cams points n_points undistort WNone
     = CameraGroup_triangulate K cams points n_points undistort"
  by (simp add: CameraGroup_triangulate_weighted_def CameraGroup_triangulate_def Let_def
        triangulate_weighted_at_none undistort_all_def)
lemma those_map_Some: "(\<And>x. x \<in> set xs \<Longrightarrow> f x = Some (g x)) \<Longrightarrow> those (map f xs) = Some (map g xs)"
  by (induction xs) simp_all

lemma count_true_map: "count_true (map P xs) = length (filter P xs)"
  by (induction xs) (simp_all add: count_true_def)

lemma dehomogenize_finite: "d \<noteq> 0 \<Longrightarrow> finite3 (dehomogenize (Some a, Some b, Some c, Some d))"
  by (simp add: dehomogenize_def finite3_def fl_div_def isnan_def)

lemma wf_valid: "wf_obs p \<Longrightarrow> (\<not> isnan (fst p)) = valid_obs p"
  by (auto simp: wf_obs_def valid_obs_def)

lemma column_undistort:
  assumes "keeps_missing K cams points" "shape_ok points n" "ip < n" "length points = length cams"
  shows "map (\<lambda>p. isnan (fst p)) (column (undistort_all K cams points) ip)
           = map (\<lambda>p. isnan (fst p)) (column points ip)"
proof (rule nth_equalityI)
  show "length (map (\<lambda>p. isnan (fst p)) (column (undistort_all K cams points) ip))
      = length (map (\<lambda>p. isnan (fst p)) (column points ip))"
    using assms(4) by (simp add: column_def undistort_all_def)
next
  fix c assume "c < length (map (\<lambda>p. isnan (fst p)) (column (undistort_all K cams points) ip))"
  then have c: "c < length points" "c < length cams"
    using assms(4) by (simp_all add: column_def undistort_all_def)
  have row: "length (points ! c) = n"
    using assms(2) c by (simp add: shape_ok_def list_all_length)
  have "(cams ! c, points ! c) \<in> set (zip cams points)"
    using c by (metis in_set_zip fst_conv snd_conv length_zip min_less_iff_conj nth_zip nth_mem)
  then have k: "length (cv_undistort K (cams ! c) (points ! c)) = length (points ! c)"
    "map (\<lambda>p. isnan (fst p)) (cv_undistort K (cams ! c) (points ! c))
         = map (\<lambda>p. isnan (fst p)) (points ! c)"
    using assms(1) by (auto simp: keeps_missing_def list_all_iff)
  have "isnan (fst (cv_undistort K (cams ! c) (points ! c) ! ip)) = isnan (fst (points ! c ! ip))"
    using k row assms(3) by (metis length_map nth_map)
  then show "map (\<lambda>p. isnan (fst p)) (column (undistort_all K cams points) ip) ! c
           = map (\<lambda>p. isnan (fst p)) (column points ip) ! c"
    using c by (simp add: column_def undistort_all_def)
qed

lemma wf_points_shape: "wf_points points n \<Longrightarrow> shape_ok points n"
  by (simp add: wf_points_def shape_ok_def list_all_iff)

lemma good_column:
  assumes "wf_points points n" "ip < n"
  shows "map (\<lambda>p. \<not> isnan (fst p)) (column points ip) = map valid_obs (column points ip)"
proof -
  have "wf_obs (row ! ip)" if "row \<in> set points" for row
    using assms that by (auto simp: wf_points_def list_all_iff)
  then show ?thesis
    by (simp add: column_def wf_valid)
qed

lemma not_isnan_map: "map (\<lambda>p. \<not> isnan (fst p)) xs = map Not (map (\<lambda>p. isnan (fst p)) xs)"
  by simp

lemma triangulate_at_point:
  assumes len: "length points = length cams"
    and wf: "wf_points points n"
    and keep: "undistort \<longrightarrow> keeps_missing K cams points"
    and ip: "ip < n"
  shows "triangulate_at K (map (get_extrinsics_mat K) cams)
           (if undistort then undistort_all K cams points else points) ip
         = (if 2 \<le> n_valid points ip
            then map_option dehomogenize
                   (np_linalg_svd (svd_last K) (valid_system K cams points undistort ip))
            else Some missing3)"
proof -
  let ?pts = "if undistort then undistort_all K cams points else points"
  let ?mask = "map valid_obs (column points ip)"
  let ?mats = "map (get_extrinsics_mat K) cams"
  have "map (\<lambda>p. isnan (fst p)) (column ?pts ip) = map (\<lambda>p. isnan (fst p)) (column points ip)"
    using column_undistort [OF _ wf_points_shape [OF wf] ip len] keep by simp
  then have good: "map (\<lambda>p. \<not> isnan (fst p)) (column ?pts ip) = ?mask"
    using good_column [OF wf ip] by (simp only: not_isnan_map)
  have cnt: "count_true ?mask = n_valid points ip"
    by (simp add: count_true_map n_valid_def)
  have lp: "length (column ?pts ip) = length cams"
    using len by (simp add: column_def undistort_all_def)
  have l1: "length (select_mask ?mask (column ?pts ip)) = count_true ?mask"
    using lp len by (intro length_select_mask) (simp add: column_def)
  have l2: "length (select_mask ?mask ?mats) = count_true ?mask"
    using len by (intro length_select_mask) (simp add: column_def)
  show ?thesis
    unfolding triangulate_at_def Let_def good cnt
    by (simp add: triangulate_simple_def valid_system_def Let_def)
qed

lemma column_undistort_valid:
  assumes "keeps_missing K cams points" "shape_ok points n" "ip < n" "length points = length cams"
  shows "map valid_obs (column (undistort_all K cams points) ip) = map valid_obs (column points ip)"
proof (rule nth_equalityI)
  show "length (map valid_obs (column (undistort_all K cams points) ip))
      = length (map valid_obs (column points ip))"
    using assms(4) by (simp add: column_def undistort_all_def)
next
  fix c assume "c < length (map valid_obs (column (undistort_all K cams points) ip))"
  then have c: "c < length points" "c < length cams"
    using assms(4) by (simp_all add: column_def undistort_all_def)
  have row: "length (points ! c) = n"
    using assms(2) c by (simp add: shape_ok_def list_all_length)
  have "(cams ! c, points ! c) \<in> set (zip cams points)"
    using c by (metis in_set_zip fst_conv snd_conv length_zip min_less_iff_conj nth_zip nth_mem)
  then have k: "length (cv_undistort K (cams ! c) (points ! c)) = length (points ! c)"
    "map (\<lambda>p. isnan (fst p)) (cv_undistort K (cams ! c) (points ! c))
         = map (\<lambda>p. isnan (fst p)) (points ! c)"
    "map (\<lambda>p. isnan (snd p)) (cv_undistort K (cams ! c) (points ! c))
         = map (\<lambda>p. isnan (snd p)) (points ! c)"
    using assms(1) by (auto simp: keeps_missing_def list_all_iff)
  have "isnan (fst (cv_undistort K (cams ! c) (points ! c) ! ip)) = isnan (fst (points ! c ! ip))"
    using k(1,2) row assms(3) by (metis length_map nth_map)
  moreover have "isnan (snd (cv_undistort K (cams ! c) (points ! c) ! ip)) = isnan (snd (points ! c ! ip))"
    using k(1,3) row assms(3) by (metis length_map nth_map)
  ultimately show "map valid_obs (column (undistort_all K cams points) ip) ! c
           = map valid_obs (column points ip) ! c"
    using c by (simp add: column_def undistort_all_def valid_obs_def)
qed

lemma select_mask_map: "select_mask (map P xs) xs = filter P xs"
  by (induction xs) (simp_all add: select_mask_def)

lemma set_select_mask: "set (select_mask good xs) \<subseteq> set xs"
  by (auto simp: select_mask_def dest: set_zip_rightD)

lemma fl_finite_row:
  assumes "finite4 m2" "finite4 m"
  shows "finite4 (sub4 (scale4 (Some x) m2) m)"
proof -
  obtain a b c d where m2: "m2 = (a, b, c, d)" by (metis prod_cases4)
  obtain a' b' c' d' where m: "m = (a', b', c', d')" by (metis prod_cases4)
  show ?thesis
    using assms
    by (auto simp: m2 m finite4_def sub4_def scale4_def fl_mul_def fl_sub_def isnan_def)
qed

lemma simple_rows_finite:
  assumes "valid_obs p" "finite_rows mat"
  shows "list_all finite4 (simple_rows p mat)"
proof -
  obtain x y where p: "p = (Some x, Some y)"
    using assms(1) by (cases p) (auto simp: valid_obs_def isnan_def)
  obtain m0 m1 m2 m3 where mat: "mat = (m0, m1, m2, m3)" by (metis prod_cases4)
  show ?thesis
    using assms(2) by (simp add: p mat simple_rows_def finite_rows_def fl_finite_row)
qed

lemma simple_system_finite:
  assumes "length ps = length ms" "list_all valid_obs ps" "list_all finite_rows ms"
  shows "list_all finite4 (simple_system ps ms)"
proof -
  have "list_all finite4 (simple_rows (ps ! i) (ms ! i))" if "i < length ms" for i
    using assms that by (intro simple_rows_finite) (simp_all add: list_all_length)
  then show ?thesis
    by (auto simp: simple_system_def list_all_iff)
qed

lemma valid_system_finite:
  assumes len: "length points = length cams"
    and wf: "wf_points points n"
    and keep: "undistort \<longrightarrow> keeps_missing K cams points"
    and ip: "ip < n"
    and fin: "finite_extrinsics K cams"
  shows "list_all finite4 (valid_system K cams points undistort ip)"
proof -
  let ?pts = "if undistort then undistort_all K cams points else points"
  let ?mask = "map valid_obs (column points ip)"
  let ?mats = "map (get_extrinsics_mat K) cams"
  have mask: "?mask = map valid_obs (column ?pts ip)"
    using column_undistort_valid [OF _ wf_points_shape [OF wf] ip len] keep by simp
  have sel: "select_mask ?mask (column ?pts ip) = filter valid_obs (column ?pts ip)"
    unfolding mask by (rule select_mask_map)
  have l1: "length (select_mask ?mask (column ?pts ip)) = count_true ?mask"
    using len by (intro length_select_mask) (simp add: column_def undistort_all_def)
  have l2: "length (select_mask ?mask ?mats) = count_true ?mask"
    using len by (intro length_select_mask) (simp add: column_def)
  have v: "list_all valid_obs (select_mask ?mask (column ?pts ip))"
    unfolding sel by (simp add: list_all_iff)
  have "list_all finite_rows ?mats"
    using fin by (simp add: finite_extrinsics_def list_all_iff)
  then have m: "list_all finite_rows (select_mask ?mask ?mats)"
    using set_select_mask [of ?mask ?mats] unfolding list_all_iff by blast
  have "list_all finite4 (simple_system (select_mask ?mask (column ?pts ip))
                            (select_mask ?mask ?mats))"
    using l1 l2 v m by (intro simple_system_finite) simp_all
  then show ?thesis
    by (simp add: valid_system_def Let_def)
qed

lemma smallest_singular_finite:
  assumes "smallest_singular A v" "nondegenerate A"
  shows "finite3 (dehomogenize (fl4 v))"
proof -
  obtain a b c d where v: "v = (a, b, c, d)" by (metis prod_cases4)
  have "d \<noteq> 0" using assms by (auto simp: nondegenerate_def v)
  then show ?thesis
    by (simp add: v fl4_def dehomogenize_finite)
qed


text \<open>
  Claim C9: weighted linear triangulation with every weight equal to 1 returns what
  \<open>triangulate_simple\<close> returns (the same exception when the decomposition raises), and
  \<open>CameraGroup.triangulate_weighted\<close> with \<open>weights=None\<close> returns what
  \<open>CameraGroup.triangulate\<close> returns in non-fast mode.
\<close>

theorem C9_unit_weights:
  "(length camera_mats \<le> length weights \<and> (\<forall>i<length camera_mats. weights ! i = Some 1)
      \<longrightarrow> triangulate_weighted svd points camera_mats weights
            = triangulate_simple svd points camera_mats) \<and>
   CameraGroup_triangulate_weighted K cams pts n_points undistort WNone
     = CameraGroup_triangulate K cams pts n_points undistort"
  using triangulate_weighted_ones group_triangulate_weighted_none by blast

theorem C9_unit_weights_witness:
  "triangulate_weighted (svd_last example_kernels) [(Some 3, Some 4), (Some 6, Some 8)]
       [unit_mat4, unit_mat4] [Some 1, Some 1]
     = triangulate_simple (svd_last example_kernels) [(Some 3, Some 4), (Some 6, Some 8)]
         [unit_mat4, unit_mat4] \<and>
   triangulate_simple (svd_last example_kernels) [(Some 3, Some 4), (Some 6, Some 8)]
       [unit_mat4, unit_mat4] = Some (Some 1, Some 2, Some 3)"
proof -
  have h: "length [unit_mat4, unit_mat4] \<le> length [Some (1::real), Some 1] \<and>
           (\<forall>i<length [unit_mat4, unit_mat4]. [Some (1::real), Some 1] ! i = Some 1)"
    by (simp add: less_Suc_eq)
  have v: "triangulate_simple (svd_last example_kernels) [(Some 3, Some 4), (Some 6, Some 8)]
             [unit_mat4, unit_mat4] = Some (Some 1, Some 2, Some 3)"
    by (simp add: triangulate_simple_def np_linalg_svd_def simple_system_def simple_rows_def
        unit_mat4_def sub4_def scale4_def fl_mul_def fl_sub_def finite4_def isnan_def
        example_kernels_def dehomogenize_def fl_div_def upt_rec)
  show ?thesis
    using C9_unit_weights [of "[unit_mat4, unit_mat4]" "[Some 1, Some 1]"
        "svd_last example_kernels" "[(Some 3, Some 4), (Some 6, Some 8)]"] h v
    by blast
qed

lemma residual_sq_nonneg: "0 \<le> residual_sq A v"
  unfolding residual_sq_def by (induction A) simp_all

lemma view_system_residual:
  "residual_sq view_system (a, b, c, d) = a\<^sup>2 + b\<^sup>2 + (c - a)\<^sup>2 + b\<^sup>2"
  by (simp add: residual_sq_def view_system_def dot4_def fl_val_def power2_eq_square algebra_simps)

lemma view_system_singular: "smallest_singular view_system (0, 0, 0, 1)"
proof -
  have "residual_sq view_system (0, 0, 0, 1) = 0"
    by (simp add: view_system_residual)
  then show ?thesis
    by (simp add: smallest_singular_def unit4_def residual_sq_nonneg)
qed

lemma view_system_nondegenerate: "nondegenerate view_system"
  unfolding nondegenerate_def
proof (intro allI impI)
  fix v :: rvec4
  assume s: "smallest_singular view_system v"
  obtain a b c d where v: "v = (a, b, c, d)" by (metis prod_cases4)
  have u: "a\<^sup>2 + b\<^sup>2 + c\<^sup>2 + d\<^sup>2 = 1"
    using s by (simp add: smallest_singular_def unit4_def v)
  have "unit4 (0, 0, 0, 1)" by (simp add: unit4_def)
  then have "residual_sq view_system v \<le> residual_sq view_system (0, 0, 0, 1)"
    using s unfolding smallest_singular_def by blast
  then have le: "a\<^sup>2 + b\<^sup>2 + (c - a)\<^sup>2 + b\<^sup>2 \<le> 0"
    by (simp add: v view_system_residual)
  have a: "a\<^sup>2 = 0"
    using le zero_le_power2 [of a] zero_le_power2 [of b] zero_le_power2 [of "c - a"] by linarith
  have b: "b\<^sup>2 = 0"
    using le zero_le_power2 [of a] zero_le_power2 [of b] zero_le_power2 [of "c - a"] by linarith
  have "(c - a)\<^sup>2 = 0"
    using le zero_le_power2 [of a] zero_le_power2 [of b] zero_le_power2 [of "c - a"] by linarith
  then have c: "c\<^sup>2 = 0" using a by simp
  have "d\<^sup>2 = 1" using u a b c by simp
  then have "d \<noteq> 0" by auto
  then show "snd (snd (snd v)) \<noteq> 0" by (simp add: v)
qed

lemma view_points_system: "valid_system view_kernels view_cams view_points True 0 = view_system"
  by (simp add: valid_system_def view_kernels_def view_cams_def view_points_def view_system_def
      undistort_all_def column_def valid_obs_def isnan_def select_mask_def simple_system_def
      simple_rows_def get_extrinsics_mat_def translation_mat_def sub4_def scale4_def
      fl_mul_def fl_sub_def upt_rec Let_def)

text \<open>
  Claim C6, for \<open>fast=False\<close>: on a well-formed tensor with one row per camera, with
  extrinsics matrices of numbers and a decomposition that meets its contract on the linear
  system of every point with 2 or more valid observations, the call returns one 3D point
  per column; a point with fewer than 2 valid observations is missing, and a point with 2
  or more valid observations whose views are not degenerate is finite.
\<close>

theorem C6_triangulate_missing_or_finite:
  assumes "length points = length cams"
    and "wf_points points n_points"
    and "undistort \<longrightarrow> keeps_missing K cams points"
    and "finite_extrinsics K cams"
    and "\<forall>ip<n_points. 2 \<le> n_valid points ip
           \<longrightarrow> svd_contract (svd_last K) (valid_system K cams points undistort ip)"
  shows "\<exists>out. CameraGroup_triangulate K cams points n_points undistort = Some out \<and>
           length out = n_points \<and>
           (\<forall>ip<n_points.
              (n_valid points ip < 2 \<longrightarrow> out ! ip = missing3) \<and>
              (2 \<le> n_valid points ip \<and> nondegenerate (valid_system K cams points undistort ip)
                 \<longrightarrow> finite3 (out ! ip)))"
proof -
  let ?A = "valid_system K cams points undistort"
  let ?g = "\<lambda>ip. if 2 \<le> n_valid points ip
                 then dehomogenize (the (svd_last K (?A ip)))
                 else missing3"
  have sv: "\<exists>v. svd_last K (?A ip) = Some (fl4 v) \<and> smallest_singular (?A ip) v"
    if "ip < n_points" "2 \<le> n_valid points ip" for ip
    using assms(5) that by (simp add: svd_contract_def)
  have at: "triangulate_at K (map (get_extrinsics_mat K) cams)
              (if undistort then undistort_all K cams points else points) ip = Some (?g ip)"
    if ip: "ip < n_points" for ip
  proof (cases "2 \<le> n_valid points ip")
    case True
    obtain v where "svd_last K (?A ip) = Some (fl4 v)"
      using sv [OF ip True] by blast
    moreover have "list_all finite4 (?A ip)"
      using assms(1,2,3) ip assms(4) by (rule valid_system_finite)
    ultimately show ?thesis
      using True by (simp add: triangulate_at_point [OF assms(1,2,3) ip] np_linalg_svd_def)
  next
    case False
    then show ?thesis
      by (simp add: triangulate_at_point [OF assms(1,2,3) ip])
  qed
  have run: "CameraGroup_triangulate K cams points n_points undistort = Some (map ?g [0..<n_points])"
  proof -
    have "those (map (triangulate_at K (map (get_extrinsics_mat K) cams)
                        (if undistort then undistort_all K cams points else points))
                   [0..<n_points])
            = Some (map ?g [0..<n_points])"
      by (rule those_map_Some) (simp add: at)
    then show ?thesis
      unfolding CameraGroup_triangulate_def Let_def
      using assms(1) by (simp split del: if_split)
  qed
  have fin: "finite3 (?g ip)"
    if h: "ip < n_points" "2 \<le> n_valid points ip" "nondegenerate (?A ip)" for ip
  proof -
    obtain v where v: "svd_last K (?A ip) = Some (fl4 v)" "smallest_singular (?A ip) v"
      using sv [OF h(1,2)] by blast
    have "finite3 (dehomogenize (fl4 v))"
      using v(2) h(3) by (rule smallest_singular_finite)
    then show ?thesis
      using v(1) h(2) by simp
  qed
  show ?thesis
    using run fin by auto
qed

theorem C6_triangulate_missing_or_finite_witness:
  "\<exists>out. CameraGroup_triangulate view_kernels view_cams view_points 2 True = Some out \<and>
     length out = 2 \<and> finite3 (out ! 0) \<and> out ! 1 = missing3"
proof -
  have 1: "length view_points = length view_cams"
    by (simp add: view_points_def view_cams_def)
  have 2: "wf_points view_points 2"
    by (simp add: wf_points_def view_points_def wf_obs_def isnan_def)
  have 3: "True \<longrightarrow> keeps_missing view_kernels view_cams view_points"
    by (simp add: keeps_missing_def view_kernels_def view_points_def view_cams_def)
  have 4: "finite_extrinsics view_kernels view_cams"
    by (simp add: finite_extrinsics_def finite_rows_def finite4_def isnan_def view_kernels_def
        view_cams_def get_extrinsics_mat_def translation_mat_def)
  have v: "n_valid view_points 1 < 2" "2 \<le> n_valid view_points 0"
    by (simp_all add: n_valid_def column_def view_points_def valid_obs_def isnan_def)
  have c: "svd_contract (svd_last view_kernels) view_system"
    using view_system_singular
    by (auto simp: svd_contract_def view_kernels_def fl4_def intro!: exI [of _ "(0, 0, 0, 1)"])
  have 5: "\<forall>ip<2. 2 \<le> n_valid view_points ip
             \<longrightarrow> svd_contract (svd_last view_kernels) (valid_system view_kernels view_cams view_points True ip)"
  proof (intro allI impI)
    fix ip :: nat assume ip: "ip < 2" "2 \<le> n_valid view_points ip"
    have "ip = 0"
    proof (rule ccontr)
      assume "ip \<noteq> 0"
      then have "ip = 1" using ip(1) by simp
      then show False using ip(2) v(1) by simp
    qed
    then show "svd_contract (svd_last view_kernels) (valid_system view_kernels view_cams view_points True ip)"
      using c by (simp add: view_points_system)
  qed
  have 6: "nondegenerate (valid_system view_kernels view_cams view_points True 0)"
    by (simp add: view_points_system view_system_nondegenerate)
  show ?thesis
    using C6_triangulate_missing_or_finite [OF 1 2 3 4 5] v 6
    by (metis lessI one_less_numeral_iff semiring_norm(76) numeral_2_eq_2 zero_less_Suc)
qed


lemma norm_residual_valid:
  assumes "valid_obs (cv_project K cam p)"
  shows "fl_norm2 (residual K cam p q)
           = (if valid_obs q then Some (euclid_residual K cam p q) else None)"
proof -
  obtain x y where q: "q = (x, y)" by (cases q)
  obtain px py where pr: "cv_project K cam p = (Some px, Some py)"
    using assms by (cases "cv_project K cam p") (auto simp: valid_obs_def isnan_def)
  show ?thesis
    by (cases x; cases y)
       (simp_all add: q pr residual_def fl_norm2_def fl_sub_def valid_obs_def isnan_def
          euclid_residual_def fl_val_def)
qed

lemma norm_residual_invalid: "\<not> valid_obs q \<Longrightarrow> fl_norm2 (residual K cam p q) = None"
  by (cases q; cases "cv_project K cam p"; cases "fst q"; cases "snd q")
     (auto simp: residual_def fl_norm2_def fl_sub_def valid_obs_def isnan_def split: option.splits)

lemma count_good_le:
  "count_true (map (\<lambda>e. \<not> isnan e) (map (\<lambda>(cam, row). fl_norm2 (residual K cam p (row ! j))) vs))
     \<le> length (filter (\<lambda>(cam, row). valid_obs (row ! j)) vs)"
proof (induction vs)
  case Nil
  show ?case by (simp add: count_true_def)
next
  case (Cons v vs)
  obtain cam row where v: "v = (cam, row)" by (cases v)
  show ?case
    using Cons norm_residual_invalid [of "row ! j" K cam p]
    by (auto simp: v count_true_def isnan_def)
qed

lemma good_views:
  assumes "\<forall>(cam, row)\<in>set vs. valid_obs (cv_project K cam p)"
  shows "count_true (map (\<lambda>e. \<not> isnan e) (map (\<lambda>(cam, row). fl_norm2 (residual K cam p (row ! j))) vs))
           = length (filter (\<lambda>(cam, row). valid_obs (row ! j)) vs) \<and>
         sum_list (map (\<lambda>e. case e of None \<Rightarrow> 0 | Some v \<Rightarrow> v)
                     (map (\<lambda>(cam, row). fl_norm2 (residual K cam p (row ! j))) vs))
           = sum_list (map (\<lambda>(cam, row). euclid_residual K cam p (row ! j))
                         (filter (\<lambda>(cam, row). valid_obs (row ! j)) vs))"
  using assms
proof (induction vs)
  case Nil
  show ?case by (simp add: count_true_def)
next
  case (Cons v vs)
  obtain cam row where v: "v = (cam, row)" by (cases v)
  have pv: "valid_obs (cv_project K cam p)" using Cons.prems by (simp add: v)
  show ?case
    using Cons norm_residual_valid [OF pv, of "row ! j"]
    by (auto simp: v count_true_def isnan_def)
qed


lemma norms_column:
  assumes "j < n"
  shows "map fl_norm2 (column (map (\<lambda>(cam, row). Camera_reprojection_error K cam p3ds row n) vs) j)
           = map (\<lambda>(cam, row). fl_norm2 (residual K cam (p3ds ! j) (row ! j))) vs"
  using assms by (simp add: column_def Camera_reprojection_error_def split_def)

lemma n_valid_zip:
  assumes "length p2ds = length cams"
  shows "n_valid p2ds j = length (filter (\<lambda>(cam, row). valid_obs (row ! j)) (zip cams p2ds))"
proof -
  have "map snd (zip cams p2ds) = p2ds"
    using assms by simp
  then have "map (\<lambda>row. row ! j) p2ds = map (\<lambda>row. row ! j) (map snd (zip cams p2ds))"
    by simp
  then have "column p2ds j = map (\<lambda>(cam, row). row ! j) (zip cams p2ds)"
    by (simp add: column_def split_def o_def del: map_snd_zip)
  then show ?thesis
    by (simp add: n_valid_def filter_map o_def split_def)
qed

lemma mean_at_point:
  assumes len: "length p2ds = length cams" and j: "j < n"
  shows "(n_valid p2ds j < 2 \<longrightarrow>
            mean_over_cameras (map fl_norm2 (column (map (\<lambda>(cam, row).
                Camera_reprojection_error K cam p3ds row n) (zip cams p2ds)) j)) = None) \<and>
         (2 \<le> n_valid p2ds j \<and> projects K cams (p3ds ! j) \<longrightarrow>
            mean_over_cameras (map fl_norm2 (column (map (\<lambda>(cam, row).
                Camera_reprojection_error K cam p3ds row n) (zip cams p2ds)) j))
              = Some (spec_mean_error K cams p3ds p2ds j))"
proof (intro conjI impI)
  assume few: "n_valid p2ds j < 2"
  have "count_true (map (\<lambda>e. \<not> isnan e)
          (map (\<lambda>(cam, row). fl_norm2 (residual K cam (p3ds ! j) (row ! j))) (zip cams p2ds))) < 2"
    using count_good_le [of K "p3ds ! j" j "zip cams p2ds"] few n_valid_zip [OF len, of j]
    by linarith
  then show "mean_over_cameras (map fl_norm2 (column (map (\<lambda>(cam, row).
                Camera_reprojection_error K cam p3ds row n) (zip cams p2ds)) j)) = None"
    unfolding norms_column [OF j] mean_over_cameras_def Let_def by simp
next
  assume h: "2 \<le> n_valid p2ds j \<and> projects K cams (p3ds ! j)"
  have pr: "\<forall>(cam, row)\<in>set (zip cams p2ds). valid_obs (cv_project K cam (p3ds ! j))"
    using h by (auto simp: projects_def list_all_iff dest: set_zip_leftD)
  note gv = good_views [OF pr, of j]
  have cnt: "count_true (map (\<lambda>e. \<not> isnan e)
          (map (\<lambda>(cam, row). fl_norm2 (residual K cam (p3ds ! j) (row ! j))) (zip cams p2ds)))
        = n_valid p2ds j"
    using gv n_valid_zip [OF len, of j] by simp
  show "mean_over_cameras (map fl_norm2 (column (map (\<lambda>(cam, row).
                Camera_reprojection_error K cam p3ds row n) (zip cams p2ds)) j))
              = Some (spec_mean_error K cams p3ds p2ds j)"
    unfolding norms_column [OF j] mean_over_cameras_def Let_def cnt
    using h gv n_valid_zip [OF len, of j]
    by (simp add: spec_mean_error_def Let_def)
qed

text \<open>
  Claim C7: with \<open>mean=True\<close> the call returns one score per point; a point with fewer than
  2 valid observations scores NaN, and a point with 2 or more valid observations that
  every camera projects to a pixel scores the average, over exactly the cameras with a
  valid observation, of the Euclidean norms of the residuals.
\<close>

theorem C7_mean_reprojection_error:
  assumes "length p2ds = length cams" and "length p3ds = n_points"
  shows "\<exists>scores. reprojection_error_mean K cams p3ds p2ds n_points = Some scores \<and>
           length scores = n_points \<and>
           (\<forall>j<n_points.
              (n_valid p2ds j < 2 \<longrightarrow> scores ! j = None) \<and>
              (2 \<le> n_valid p2ds j \<and> projects K cams (p3ds ! j)
                 \<longrightarrow> scores ! j = Some (spec_mean_error K cams p3ds p2ds j)))"
  using assms mean_at_point [OF assms(1)]
  by (simp add: reprojection_error_mean_def reprojection_error_full_def)

lemma sqrt_25: "sqrt 25 = 5" by (rule real_sqrt_unique) simp_all
lemma sqrt_100: "sqrt 100 = 10" by (rule real_sqrt_unique) simp_all

theorem C7_mean_reprojection_error_witness:
  "\<exists>scores. reprojection_error_mean example_kernels [example_pinhole, example_pinhole]
       [(Some 1, Some 2, Some 3), missing3] example_points 2 = Some scores \<and>
     scores ! 0 = Some (15 / 2) \<and> scores ! 1 = None"
proof -
  have 1: "length example_points = length [example_pinhole, example_pinhole]"
    by (simp add: example_points_def)
  have 2: "length [(Some (1::real), Some (2::real), Some (3::real)), missing3] = 2" by simp
  have v: "n_valid example_points 1 < 2" "2 \<le> n_valid example_points 0"
    by (simp_all add: n_valid_def column_def example_points_def valid_obs_def isnan_def)
  have pr: "projects example_kernels [example_pinhole, example_pinhole]
              ([(Some 1, Some 2, Some 3), missing3] ! 0)"
    by (simp add: projects_def example_kernels_def valid_obs_def isnan_def)
  have sp: "spec_mean_error example_kernels [example_pinhole, example_pinhole]
              [(Some 1, Some 2, Some 3), missing3] example_points 0 = 15 / 2"
    by (simp add: spec_mean_error_def example_points_def valid_obs_def isnan_def
        euclid_residual_def example_kernels_def fl_val_def sqrt_25 sqrt_100)
  obtain scores where s: "reprojection_error_mean example_kernels [example_pinhole, example_pinhole]
       [(Some 1, Some 2, Some 3), missing3] example_points 2 = Some scores"
    and a: "\<forall>j<2. (n_valid example_points j < 2 \<longrightarrow> scores ! j = None) \<and>
              (2 \<le> n_valid example_points j \<and> projects example_kernels [example_pinhole, example_pinhole]
                  ([(Some 1, Some 2, Some 3), missing3] ! j)
                 \<longrightarrow> scores ! j = Some (spec_mean_error example_kernels [example_pinhole, example_pinhole]
              [(Some 1, Some 2, Some 3), missing3] example_points j))"
    using C7_mean_reprojection_error [OF 1 2, of example_kernels] by blast
  have "scores ! 0 = Some (15 / 2)"
    using a v(2) pr sp by (metis zero_less_numeral)
  moreover have "scores ! 1 = None"
    using a v(1) by (metis one_less_numeral_iff semiring_norm(76))
  ultimately show ?thesis using s by blast
qed


lemma first_lowest_0:
  "(\<forall>i<length es. \<not> fl_less (es ! i) e) \<Longrightarrow> first_lowest (e # es) 0"
  by (cases e) (auto simp: first_lowest_def fl_less_def nth_Cons split: nat.splits)

lemma first_lowest_Suc:
  "first_lowest es k \<Longrightarrow> \<not> fl_le e (es ! k) \<Longrightarrow> first_lowest (e # es) (Suc k)"
  by (auto simp: first_lowest_def fl_le_def fl_less_def nth_Cons split: nat.splits option.splits)

lemma fl_less_trans: "fl_less a b \<Longrightarrow> fl_less b c \<Longrightarrow> fl_less a c"
  by (auto simp: fl_less_def split: option.splits)

lemma fl_le_less_trans: "fl_le a b \<Longrightarrow> fl_less b c \<Longrightarrow> fl_less a c"
  by (auto simp: fl_less_def fl_le_def split: option.splits)

lemma fl_less_not_le: "fl_less a b \<Longrightarrow> \<not> fl_le b a"
  by (auto simp: fl_less_def fl_le_def split: option.splits)

lemma keep_combos_Cons:
  "keep_combos min_cams n (combo # rest)
     = (if length (drop_none combo) < min_cams \<and> length (drop_none combo) \<noteq> n
        then keep_combos min_cams n rest
        else drop_none combo # keep_combos min_cams n rest)"
  by (simp add: keep_combos_def)

lemma lowest_below_none:
  "\<forall>p\<in>set en. \<not> fl_less (error_of score p) bound \<Longrightarrow> lowest_below score j en bound b b"
  by (simp add: lowest_below_def)

lemma lowest_below_at:
  "first_lowest (map (error_of score) en) k \<Longrightarrow> fl_less (error_of score (en ! k)) bound
     \<Longrightarrow> lowest_below score j en bound b (best_of score j (en ! k))"
proof -
  assume a: "first_lowest (map (error_of score) en) k" "fl_less (error_of score (en ! k)) bound"
  then have "k < length en" by (simp add: first_lowest_def)
  then have "en ! k \<in> set en" by simp
  then have "\<not> (\<forall>p\<in>set en. \<not> fl_less (error_of score p) bound)" using a(2) by blast
  then show ?thesis using a by (auto simp: lowest_below_def)
qed

lemma lowest_below_cases:
  assumes "lowest_below score j en bound b r"
  obtains "\<forall>p\<in>set en. \<not> fl_less (error_of score p) bound" "r = b"
  | k where "first_lowest (map (error_of score) en) k" "r = best_of score j (en ! k)"
      "fl_less (error_of score (en ! k)) bound"
  using assms by (auto simp: lowest_below_def split: if_splits)

lemma search_returns:
  assumes inv: "ev \<le> 200" "ev < 200 \<longrightarrow> \<not> ev < threshold"
    and ok: "\<forall>p\<in>set (upto_first (stops_at score threshold) (keep_combos min_cams n combos)).
               score p \<noteq> None"
  shows "\<exists>r. search score min_cams n threshold j combos (b, Some ev) = Some r \<and>
           lowest_below score j (upto_first (stops_at score threshold) (keep_combos min_cams n combos))
             (Some ev) b r"
  using inv ok
proof (induction combos arbitrary: b ev)
  case Nil
  show ?case by (simp add: keep_combos_def lowest_below_def)
next
  case (Cons combo rest)
  let ?picked = "drop_none combo"
  let ?en' = "upto_first (stops_at score threshold) (keep_combos min_cams n rest)"
  show ?case
  proof (cases "length ?picked < min_cams \<and> length ?picked \<noteq> n")
    case True
    have "\<forall>p\<in>set ?en'. score p \<noteq> None"
      using Cons.prems(3) True by (simp add: keep_combos_Cons)
    then show ?thesis
      using Cons.IH [OF Cons.prems(1,2)] True by (simp add: keep_combos_Cons Let_def)
  next
    case keep: False
    have keepC: "keep_combos min_cams n (combo # rest) = ?picked # keep_combos min_cams n rest"
      using keep by (auto simp: keep_combos_Cons)
    have "?picked \<in> set (upto_first (stops_at score threshold)
                            (keep_combos min_cams n (combo # rest)))"
      by (simp add: keepC)
    then have "score ?picked \<noteq> None"
      using Cons.prems(3) by blast
    then obtain p3d err pts where sc: "score ?picked = Some (p3d, err, pts)"
      by (cases "score ?picked") auto
    have eo: "error_of score ?picked = err" by (simp add: error_of_def sc)
    define best where "best = \<lparr>bp_error = err, bp_point = p3d, bp_points = pts,
                bp_picked = ?picked, bp_joint_ix = j\<rparr>"
    have bo: "best_of score j ?picked = Some best"
      by (simp add: best_of_def sc best_def)
    have step: "search score min_cams n threshold j (combo # rest) st
        = (if fl_less err (snd st)
           then (if fl_less err (Some threshold) then Some (Some best)
                 else search score min_cams n threshold j rest (Some best, err))
           else search score min_cams n threshold j rest st)" for st
      using keep sc by (auto simp: Let_def best_def)
    note search.simps(2) [simp del]
    show ?thesis
    proof (cases "fl_less err (Some ev)")
      case less: True
      then obtain v where v: "err = Some v" "v < ev"
        by (auto simp: fl_less_def split: option.splits)
      show ?thesis
      proof (cases "fl_less err (Some threshold)")
        case True
        have hit: "stops_at score threshold ?picked"
          using True v Cons.prems(1) by (simp add: stops_at_def eo fl_less_def)
        have en: "upto_first (stops_at score threshold) (keep_combos min_cams n (combo # rest))
                    = [?picked]"
          using hit by (simp add: keepC)
        have "first_lowest (map (error_of score) [?picked]) 0"
          by (simp add: first_lowest_def eo v fl_less_def)
        then have "lowest_below score j [?picked] (Some ev) b (best_of score j ([?picked] ! 0))"
          using less eo by (intro lowest_below_at) simp_all
        then show ?thesis
          using less True by (simp add: step en bo)
      next
        case nothr: False
        have nohit: "\<not> stops_at score threshold ?picked"
          using nothr by (simp add: stops_at_def eo)
        have en: "upto_first (stops_at score threshold) (keep_combos min_cams n (combo # rest))
                    = ?picked # ?en'"
          using nohit by (simp add: keepC)
        have inv': "v \<le> 200" "v < 200 \<longrightarrow> \<not> v < threshold"
          using v Cons.prems(1) nothr by (auto simp: fl_less_def)
        have ok': "\<forall>p\<in>set ?en'. score p \<noteq> None"
          using Cons.prems(3) by (simp add: en)
        obtain r where r: "search score min_cams n threshold j rest (Some best, Some v) = Some r"
          and rprop: "lowest_below score j ?en' (Some v) (Some best) r"
          using Cons.IH [OF inv' ok'] by blast
        have run: "search score min_cams n threshold j (combo # rest) (b, Some ev) = Some r"
          using less nothr r v by (simp add: step)
        from rprop have "lowest_below score j (?picked # ?en') (Some ev) b r"
        proof (cases rule: lowest_below_cases)
          case 1
          have "first_lowest (map (error_of score) (?picked # ?en')) 0"
            using 1(1) by (simp add: first_lowest_0 eo v)
          then have "lowest_below score j (?picked # ?en') (Some ev) b
                       (best_of score j ((?picked # ?en') ! 0))"
            using less eo by (intro lowest_below_at) simp_all
          then show ?thesis using 1(2) bo by simp
        next
          case (2 k)
          have klen: "k < length ?en'" using 2(1) by (simp add: first_lowest_def)
          have "\<not> fl_le err (map (error_of score) ?en' ! k)"
            using 2(3) klen v by (simp add: fl_less_not_le)
          then have "first_lowest (map (error_of score) (?picked # ?en')) (Suc k)"
            using 2(1) by (simp add: first_lowest_Suc eo)
          moreover have "fl_less (error_of score ((?picked # ?en') ! Suc k)) (Some ev)"
            using 2(3) less v fl_less_trans by auto
          ultimately have "lowest_below score j (?picked # ?en') (Some ev) b
                       (best_of score j ((?picked # ?en') ! Suc k))"
            by (rule lowest_below_at)
          then show ?thesis using 2(2) by simp
        qed
        then show ?thesis using run en by simp
      qed
    next
      case notless: False
      have nohit: "\<not> stops_at score threshold ?picked"
      proof
        assume h: "stops_at score threshold ?picked"
        then obtain v where v: "err = Some v" "v < threshold" "v < 200"
          by (auto simp: stops_at_def eo fl_less_def split: option.splits)
        have "v < ev"
          using Cons.prems(1,2) v by (cases "ev < 200") auto
        then show False using notless v by (simp add: fl_less_def)
      qed
      have en: "upto_first (stops_at score threshold) (keep_combos min_cams n (combo # rest))
                  = ?picked # ?en'"
        using nohit by (simp add: keepC)
      have ok': "\<forall>p\<in>set ?en'. score p \<noteq> None"
        using Cons.prems(3) by (simp add: en)
      obtain r where r: "search score min_cams n threshold j rest (b, Some ev) = Some r"
        and rprop: "lowest_below score j ?en' (Some ev) b r"
        using Cons.IH [OF Cons.prems(1,2) ok'] by blast
      have run: "search score min_cams n threshold j (combo # rest) (b, Some ev) = Some r"
        using notless r by (simp add: step)
      from rprop have "lowest_below score j (?picked # ?en') (Some ev) b r"
      proof (cases rule: lowest_below_cases)
        case 1
        have "\<forall>p\<in>set (?picked # ?en'). \<not> fl_less (error_of score p) (Some ev)"
          using 1(1) notless eo by simp
        then show ?thesis using 1(2) by (simp add: lowest_below_none)
      next
        case (2 k)
        have klen: "k < length ?en'" using 2(1) by (simp add: first_lowest_def)
        have "\<not> fl_le err (map (error_of score) ?en' ! k)"
          using 2(3) klen notless fl_le_less_trans by fastforce
        then have "first_lowest (map (error_of score) (?picked # ?en')) (Suc k)"
          using 2(1) by (simp add: first_lowest_Suc eo)
        moreover have "fl_less (error_of score ((?picked # ?en') ! Suc k)) (Some ev)"
          using 2(3) by simp
        ultimately have "lowest_below score j (?picked # ?en') (Some ev) b
                     (best_of score j ((?picked # ?en') ! Suc k))"
          by (rule lowest_below_at)
        then show ?thesis using 2(2) by simp
      qed
      then show ?thesis using run en by simp
    qed
  qed
qed


lemma search_raises:
  assumes inv: "ev \<le> 200" "ev < 200 \<longrightarrow> \<not> ev < threshold"
    and bad: "\<exists>p\<in>set (upto_first (stops_at score threshold) (keep_combos min_cams n combos)).
                score p = None"
  shows "search score min_cams n threshold j combos (b, Some ev) = None"
  using inv bad
proof (induction combos arbitrary: b ev)
  case Nil
  then show ?case by (simp add: keep_combos_def)
next
  case (Cons combo rest)
  let ?picked = "drop_none combo"
  let ?en' = "upto_first (stops_at score threshold) (keep_combos min_cams n rest)"
  show ?case
  proof (cases "length ?picked < min_cams \<and> length ?picked \<noteq> n")
    case True
    have "\<exists>p\<in>set ?en'. score p = None"
      using Cons.prems(3) True by (simp add: keep_combos_Cons)
    then show ?thesis
      using Cons.IH [OF Cons.prems(1,2)] True by (simp add: Let_def)
  next
    case keep: False
    have keepC: "keep_combos min_cams n (combo # rest) = ?picked # keep_combos min_cams n rest"
      using keep by (auto simp: keep_combos_Cons)
    show ?thesis
    proof (cases "score ?picked")
      case None
      then show ?thesis using keep by (auto simp: Let_def)
    next
      case (Some t)
      then obtain p3d err pts where sc: "score ?picked = Some (p3d, err, pts)"
        by (cases t) auto
      have eo: "error_of score ?picked = err" by (simp add: error_of_def sc)
      define best where "best = \<lparr>bp_error = err, bp_point = p3d, bp_points = pts,
                  bp_picked = ?picked, bp_joint_ix = j\<rparr>"
      have step: "search score min_cams n threshold j (combo # rest) st
          = (if fl_less err (snd st)
             then (if fl_less err (Some threshold) then Some (Some best)
                   else search score min_cams n threshold j rest (Some best, err))
             else search score min_cams n threshold j rest st)" for st
        using keep sc by (auto simp: Let_def best_def)
      note search.simps(2) [simp del]
      have nohit: "\<not> stops_at score threshold ?picked"
      proof
        assume "stops_at score threshold ?picked"
        then have "upto_first (stops_at score threshold) (keep_combos min_cams n (combo # rest))
                     = [?picked]"
          by (simp add: keepC)
        then show False using Cons.prems(3) sc by simp
      qed
      have en: "upto_first (stops_at score threshold) (keep_combos min_cams n (combo # rest))
                  = ?picked # ?en'"
        using nohit by (simp add: keepC)
      have bad': "\<exists>p\<in>set ?en'. score p = None"
        using Cons.prems(3) sc by (simp add: en)
      show ?thesis
      proof (cases "fl_less err (Some ev)")
        case less: True
        then obtain v where v: "err = Some v" "v < ev"
          by (auto simp: fl_less_def split: option.splits)
        have nothr: "\<not> fl_less err (Some threshold)"
          using nohit v Cons.prems(1) by (simp add: stops_at_def eo fl_less_def)
        have inv': "v \<le> 200" "v < 200 \<longrightarrow> \<not> v < threshold"
          using v Cons.prems(1) nothr by (auto simp: fl_less_def)
        have "search score min_cams n threshold j rest (Some best, Some v) = None"
          using inv' bad' by (rule Cons.IH)
        then show ?thesis
          using less nothr v by (simp add: step)
      next
        case notless: False
        have "search score min_cams n threshold j rest (b, Some ev) = None"
          using Cons.prems(1,2) bad' by (rule Cons.IH)
        then show ?thesis
          using notless by (simp add: step)
      qed
    qed
  qed
qed

lemma select_at_cases:
  "if \<exists>p\<in>set (enumerated (score_combination K cams points undistort j) min_cams threshold
                  (all_iters points n_possible j)).
        score_combination K cams points undistort j p = None
   then select_at K cams points n_possible undistort min_cams threshold j = None
   else \<exists>r. select_at K cams points n_possible undistort min_cams threshold j = Some r \<and>
            lowest_below (score_combination K cams points undistort j) j
              (enumerated (score_combination K cams points undistort j) min_cams threshold
                 (all_iters points n_possible j))
              (Some 200) None r"
proof -
  let ?score = "score_combination K cams points undistort j"
  let ?en = "enumerated ?score min_cams threshold (all_iters points n_possible j)"
  have start: "(200::real) \<le> 200" "(200::real) < 200 \<longrightarrow> \<not> (200::real) < threshold"
    by simp_all
  show ?thesis
  proof (cases "\<exists>p\<in>set ?en. ?score p = None")
    case True
    then have "select_at K cams points n_possible undistort min_cams threshold j = None"
      unfolding select_at_def select_point_def enumerated_def kept_combinations_def
      using start by (intro search_raises)
    then show ?thesis by (simp only: if_P [OF True])
  next
    case False
    then have ok: "\<forall>p\<in>set ?en. ?score p \<noteq> None" by (simp del: not_None_eq)
    have "\<exists>r. select_at K cams points n_possible undistort min_cams threshold j = Some r \<and>
            lowest_below ?score j ?en (Some 200) None r"
      using ok unfolding select_at_def select_point_def enumerated_def kept_combinations_def
      by (intro search_returns start)
    then show ?thesis by (simp only: if_not_P [OF False])
  qed
qed

lemma enumerated_as_stated_low:
  assumes "threshold \<le> 200"
  shows "enumerated_as_stated score min_cams threshold iters
           = enumerated score min_cams threshold iters"
proof -
  have "(\<lambda>picked. fl_less (error_of score picked) (Some threshold)) = stops_at score threshold"
    using assms by (auto simp: stops_at_def fl_less_def fun_eq_iff split: option.splits)
  then show ?thesis
    by (simp add: enumerated_as_stated_def enumerated_def)
qed

text \<open>
  Claim C5, as amended: the combinations that the search enumerates for a point are the
  Cartesian product of the per-camera choices without those of fewer than \<open>min_cams\<close>
  picks that do not pick every observing camera, up to and including the first one whose
  error is below \<open>threshold\<close> and below 200. When the scoring of one of them raises, the
  search raises. Otherwise it returns: nothing when none of them scores below 200, else
  the combination with the lowest error among them, the first one with that error, and
  its error is below 200. For a threshold of at most 200 the enumeration is the one the
  claim states: it stops at the first combination whose error is below \<open>threshold\<close>.
\<close>

theorem C5_selection:
  "(if \<exists>p\<in>set (enumerated (score_combination K cams points undistort j) min_cams threshold
                   (all_iters points n_possible j)).
         score_combination K cams points undistort j p = None
    then select_at K cams points n_possible undistort min_cams threshold j = None
    else \<exists>r. select_at K cams points n_possible undistort min_cams threshold j = Some r \<and>
             lowest_below (score_combination K cams points undistort j) j
               (enumerated (score_combination K cams points undistort j) min_cams threshold
                  (all_iters points n_possible j))
               (Some 200) None r) \<and>
   (threshold \<le> 200 \<longrightarrow>
      enumerated_as_stated (score_combination K cams points undistort j) min_cams threshold
          (all_iters points n_possible j)
        = enumerated (score_combination K cams points undistort j) min_cams threshold
            (all_iters points n_possible j))"
proof (intro conjI impI)
  show "if \<exists>p\<in>set (enumerated (score_combination K cams points undistort j) min_cams threshold
                   (all_iters points n_possible j)).
         score_combination K cams points undistort j p = None
    then select_at K cams points n_possible undistort min_cams threshold j = None
    else \<exists>r. select_at K cams points n_possible undistort min_cams threshold j = Some r \<and>
             lowest_below (score_combination K cams points undistort j) j
               (enumerated (score_combination K cams points undistort j) min_cams threshold
                  (all_iters points n_possible j))
               (Some 200) None r"
    by (rule select_at_cases)
next
  assume "threshold \<le> 200"
  then show "enumerated_as_stated (score_combination K cams points undistort j) min_cams
                 threshold (all_iters points n_possible j)
               = enumerated (score_combination K cams points undistort j) min_cams threshold
                   (all_iters points n_possible j)"
    by (rule enumerated_as_stated_low)
qed

lemma sqrt_160000: "sqrt 160000 = 400" by (rule real_sqrt_unique) simp_all
lemma sqrt_10000: "sqrt 10000 = 100" by (rule real_sqrt_unique) simp_all

lemmas tp_eval = score_combination_def CameraGroup_triangulate_def triangulate_at_def
  reprojection_error_mean_def reprojection_error_full_def Camera_reprojection_error_def
  mean_over_cameras_def fl_norm2_def residual_def column_def count_true_def select_mask_def
  triangulate_simple_def np_linalg_svd_def simple_system_def simple_rows_def
  get_extrinsics_mat_def unit_mat4_def sub4_def scale4_def fl_mul_def finite4_def
  dehomogenize_def fl_div_def fl_sub_def isnan_def undistort_all_def
  example_kernels_def example_candidates_def Let_def

lemma example_score_first:
  "score_combination example_kernels example_cams example_candidates True 0 [(0, 0), (Suc 0, 0)]
   = Some ((Some 1, Some 2, Some 3), Some 250, [(Some 400, Some 0), (Some 100, Some 0)])"
  by (simp add: tp_eval example_cams_def sqrt_160000 sqrt_10000)

lemma example_score_second:
  "score_combination example_kernels example_cams example_candidates True 0 [(0, Suc 0), (Suc 0, 0)]
   = Some ((Some 1, Some 2, Some 3), Some 100, [(Some 100, Some 0), (Some 100, Some 0)])"
  by (simp add: tp_eval example_cams_def sqrt_160000 sqrt_10000)

lemma example_all_iters:
  "all_iters example_candidates 2 0 = [[Some (0, 0), Some (0, 1), None], [Some (1, 0), None]]"
  by (simp add: all_iters_def candidates_def example_candidates_def isnan_def upt_rec)

lemma example_kept:
  "kept_combinations 2 (all_iters example_candidates 2 0) = [[(0, 0), (1, 0)], [(0, 1), (1, 0)]]"
  by (simp add: kept_combinations_def keep_combos_def example_all_iters drop_none_def)

lemma example_select:
  "select_at example_kernels example_cams example_candidates 2 True 2 300 0 = Some (Some example_best)"
  by (simp add: select_at_def select_point_def example_all_iters drop_none_def
      example_score_first example_score_second fl_less_def Let_def example_best_def)

lemma example_enumerated:
  "enumerated (score_combination example_kernels example_cams example_candidates True 0) 2 300
     (all_iters example_candidates 2 0) = [[(0, 0), (1, 0)], [(0, 1), (1, 0)]]"
  by (simp add: enumerated_def example_kept stops_at_def error_of_def
      example_score_first example_score_second fl_less_def)

lemma example_half_score:
  "score_combination example_kernels example_cams example_half False 0 [(0, 0), (Suc 0, 0)] = None"
  by (simp add: tp_eval example_half_def example_cams_def)

lemma example_half_enumerated:
  "enumerated (score_combination example_kernels example_cams example_half False 0) 2 (1 / 2)
     (all_iters example_half (Suc 0) 0) = [[(0, 0), (Suc 0, 0)]]"
  by (simp add: enumerated_def kept_combinations_def keep_combos_def all_iters_def
      candidates_def example_half_def isnan_def upt_rec drop_none_def)

theorem C5_selection_witness:
  "lowest_below (score_combination example_kernels example_cams example_candidates True 0) 0
     [[(0, 0), (1, 0)], [(0, 1), (1, 0)]] (Some 200) None (Some example_best) \<and>
   select_at example_kernels example_cams example_half 1 False 2 (1 / 2) 0 = None \<and>
   enumerated_as_stated (score_combination example_kernels example_cams example_candidates True 0)
       2 (1 / 2) (all_iters example_candidates 2 0)
     = enumerated (score_combination example_kernels example_cams example_candidates True 0)
         2 (1 / 2) (all_iters example_candidates 2 0)"
proof -
  have low: "(1 / 2 :: real) \<le> 200" by simp
  have "if \<exists>p\<in>set (enumerated
                     (score_combination example_kernels example_cams example_candidates True 0)
                     2 300 (all_iters example_candidates 2 0)).
            score_combination example_kernels example_cams example_candidates True 0 p = None
        then select_at example_kernels example_cams example_candidates 2 True 2 300 0 = None
        else \<exists>r. select_at example_kernels example_cams example_candidates 2 True 2 300 0 = Some r \<and>
          lowest_below (score_combination example_kernels example_cams example_candidates True 0) 0
            (enumerated (score_combination example_kernels example_cams example_candidates True 0)
               2 300 (all_iters example_candidates 2 0))
            (Some 200) None r"
    using C5_selection [of example_kernels example_cams example_candidates True 0 2 300 2]
    by (rule conjunct1)
  then have a: "lowest_below (score_combination example_kernels example_cams example_candidates True 0)
               0 [[(0, 0), (1, 0)], [(0, 1), (1, 0)]] (Some 200) None (Some example_best)"
    unfolding example_select example_enumerated
    by (simp add: example_score_first example_score_second)
  have "if \<exists>p\<in>set (enumerated
                     (score_combination example_kernels example_cams example_half False 0)
                     2 (1 / 2) (all_iters example_half 1 0)).
            score_combination example_kernels example_cams example_half False 0 p = None
        then select_at example_kernels example_cams example_half 1 False 2 (1 / 2) 0 = None
        else \<exists>r. select_at example_kernels example_cams example_half 1 False 2 (1 / 2) 0 = Some r \<and>
          lowest_below (score_combination example_kernels example_cams example_half False 0) 0
            (enumerated (score_combination example_kernels example_cams example_half False 0)
               2 (1 / 2) (all_iters example_half 1 0))
            (Some 200) None r"
    using C5_selection [of example_kernels example_cams example_half False 0 2 "1 / 2" 1]
    by (rule conjunct1)
  then have b: "select_at example_kernels example_cams example_half 1 False 2 (1 / 2) 0 = None"
    by (simp add: example_half_enumerated example_half_score)
  have c: "enumerated_as_stated
         (score_combination example_kernels example_cams example_candidates True 0)
         2 (1 / 2) (all_iters example_candidates 2 0)
       = enumerated (score_combination example_kernels example_cams example_candidates True 0)
           2 (1 / 2) (all_iters example_candidates 2 0)"
    using C5_selection [of example_kernels example_cams example_candidates True 0 2 "1 / 2" 2] low
    by blast
  show ?thesis
    using a b c by (intro conjI)
qed

text \<open>
  Claim C5 as stated fails for a threshold above 200. In the example the first kept
  combination scores 250 and the second 100; with \<open>threshold = 300\<close> the enumeration as
  stated would stop at the first combination, whose error is not below 200, so nothing
  would be returned. The code goes on and returns the second combination.
\<close>

theorem C5_stop_counterexample:
  "select_at example_kernels example_cams example_candidates 2 True 2 300 0 = Some (Some example_best) \<and>
   enumerated_as_stated (score_combination example_kernels example_cams example_candidates True 0)
     2 300 (all_iters example_candidates 2 0) = [[(0, 0), (1, 0)]] \<and>
   bp_picked example_best = [(0, 1), (1, 0)] \<and>
   \<not> lowest_below (score_combination example_kernels example_cams example_candidates True 0) 0
       (enumerated_as_stated (score_combination example_kernels example_cams example_candidates True 0)
          2 300 (all_iters example_candidates 2 0))
       (Some 200) None (Some example_best)"
  by (simp add: example_select enumerated_as_stated_def example_kept error_of_def
      example_score_first fl_less_def lowest_below_def example_best_def)


lemma set_upto_first: "set (upto_first P xs) \<subseteq> set xs"
  by (induction xs) auto

lemma column_update_other:
  assumes "j \<noteq> i"
  shows "map (\<lambda>rows. rows ! j) (pv[c := (pv ! c)[i := v]]) = map (\<lambda>rows. rows ! j) pv"
proof (rule nth_equalityI)
  show "length (map (\<lambda>rows. rows ! j) (pv[c := (pv ! c)[i := v]])) = length (map (\<lambda>rows. rows ! j) pv)"
    by simp
next
  fix k assume "k < length (map (\<lambda>rows. rows ! j) (pv[c := (pv ! c)[i := v]]))"
  then have k: "k < length pv" by simp
  show "map (\<lambda>rows. rows ! j) (pv[c := (pv ! c)[i := v]]) ! k = map (\<lambda>rows. rows ! j) pv ! k"
    using k assms by (cases "k = c") simp_all
qed

lemma fold_mark_picked_other:
  "j \<noteq> i \<Longrightarrow> map (\<lambda>rows. rows ! j) (fold (mark_picked i) ps pv) = map (\<lambda>rows. rows ! j) pv"
proof (induction ps arbitrary: pv)
  case Nil
  show ?case by simp
next
  case (Cons p ps)
  obtain c x where p: "p = (c, x)" by (cases p)
  show ?case
    using Cons by (simp add: p mark_picked_def column_update_other)
qed

lemma fold_put_point_2d_other:
  "j \<noteq> i \<Longrightarrow> map (\<lambda>rows. rows ! j) (fold (put_point_2d i) ps pd) = map (\<lambda>rows. rows ! j) pd"
proof (induction ps arbitrary: pd)
  case Nil
  show ?case by simp
next
  case (Cons p ps)
  obtain c x q where p: "p = ((c, x), q)" by (cases p) auto
  show ?case
    using Cons by (simp add: p put_point_2d_def column_update_other)
qed

lemma store_best_other: "j \<noteq> i \<Longrightarrow> point_slice (store_best i best r) j = point_slice r j"
  by (simp add: point_slice_def store_best_def fold_mark_picked_other fold_put_point_2d_other)

lemma tp_loop_returns: "(tp_loop sel js r \<noteq> None) = (\<forall>i\<in>set js. sel i \<noteq> None)"
proof (induction js arbitrary: r)
  case Nil
  show ?case by simp
next
  case (Cons i js)
  show ?case
  proof (cases "sel i")
    case None
    then show ?thesis by simp
  next
    case (Some b)
    then show ?thesis
      using Cons [of r] Cons [of "store_best i (the b) r"] by (cases b) simp_all
  qed
qed

lemma tp_loop_slice:
  assumes "tp_loop sel js r = Some r'" and "j \<notin> set js \<or> sel j = Some None"
  shows "point_slice r' j = point_slice r j"
  using assms
proof (induction js arbitrary: r)
  case Nil
  then show ?case by simp
next
  case (Cons i js)
  from Cons.prems(1) obtain b where b: "sel i = Some b"
    by (cases "sel i") simp_all
  have rest: "j \<notin> set js \<or> sel j = Some None"
    using Cons.prems(2) by auto
  show ?case
  proof (cases b)
    case None
    then have "tp_loop sel js r = Some r'"
      using Cons.prems(1) b by simp
    then show ?thesis using rest by (rule Cons.IH)
  next
    case (Some best)
    then have "tp_loop sel js (store_best i best r) = Some r'"
      using Cons.prems(1) b by simp
    then have "point_slice r' j = point_slice (store_best i best r) j"
      using rest by (rule Cons.IH)
    moreover have "j \<noteq> i"
      using Cons.prems(2) b Some by auto
    ultimately show ?thesis
      by (simp add: store_best_other)
  qed
qed

lemma point_slice_init:
  "j < n_points \<Longrightarrow> point_slice (tp_init n_cams n_points n_possible) j
     = (missing3, replicate n_cams (replicate n_possible False), replicate n_cams (None, None), Some 0)"
  by (simp add: point_slice_def tp_init_def)

lemma select_at_none:
  assumes "\<forall>p\<in>set (kept_combinations min_cams (all_iters points n_possible j)).
             \<not> fl_less (error_of (score_combination K cams points undistort j) p) (Some 200)"
    and ret: "select_at K cams points n_possible undistort min_cams threshold j \<noteq> None"
  shows "select_at K cams points n_possible undistort min_cams threshold j = Some None"
proof -
  let ?score = "score_combination K cams points undistort j"
  let ?en = "enumerated ?score min_cams threshold (all_iters points n_possible j)"
  have c: "if \<exists>p\<in>set ?en. ?score p = None
           then select_at K cams points n_possible undistort min_cams threshold j = None
           else \<exists>r. select_at K cams points n_possible undistort min_cams threshold j = Some r \<and>
                    lowest_below ?score j ?en (Some 200) None r"
    by (rule select_at_cases)
  have ok: "\<not> (\<exists>p\<in>set ?en. ?score p = None)"
  proof
    assume bad: "\<exists>p\<in>set ?en. ?score p = None"
    have "select_at K cams points n_possible undistort min_cams threshold j = None"
      using c by (simp only: if_P [OF bad])
    then show False using ret by simp
  qed
  have "\<exists>r. select_at K cams points n_possible undistort min_cams threshold j = Some r \<and>
            lowest_below ?score j ?en (Some 200) None r"
    using c by (simp only: if_not_P [OF ok])
  then obtain r where r: "select_at K cams points n_possible undistort min_cams threshold j = Some r"
    and low: "lowest_below ?score j ?en (Some 200) None r"
    by blast
  have sub: "set ?en \<subseteq> set (kept_combinations min_cams (all_iters points n_possible j))"
    unfolding enumerated_def by (rule set_upto_first)
  have no: "\<not> fl_less (error_of ?score p) (Some 200)" if "p \<in> set ?en" for p
    using assms(1) sub that by (meson subsetD)
  from low have "r = None"
  proof (cases rule: lowest_below_cases)
    case 1
    then show ?thesis by simp
  next
    case (2 k)
    then have "k < length ?en" by (simp add: first_lowest_def)
    then have "?en ! k \<in> set ?en" by (rule nth_mem)
    then show ?thesis using no 2(3) by blast
  qed
  then show ?thesis using r by simp
qed

lemma select_at_returns:
  "(select_at K cams points n_possible undistort min_cams threshold i \<noteq> None)
     = (\<forall>p\<in>set (enumerated (score_combination K cams points undistort i) min_cams threshold
                   (all_iters points n_possible i)).
          score_combination K cams points undistort i p \<noteq> None)"
proof -
  let ?score = "score_combination K cams points undistort i"
  let ?en = "enumerated ?score min_cams threshold (all_iters points n_possible i)"
  let ?sel = "select_at K cams points n_possible undistort min_cams threshold i"
  have c: "if \<exists>p\<in>set ?en. ?score p = None then ?sel = None
           else \<exists>r. ?sel = Some r \<and> lowest_below ?score i ?en (Some 200) None r"
    by (rule select_at_cases)
  show ?thesis
  proof (cases "\<exists>p\<in>set ?en. ?score p = None")
    case True
    have "?sel = None" using c by (simp only: if_P [OF True])
    moreover have "\<not> (\<forall>p\<in>set ?en. ?score p \<noteq> None)"
      using True by (simp del: not_None_eq)
    ultimately show ?thesis by (simp del: not_None_eq)
  next
    case False
    have "\<exists>r. ?sel = Some r \<and> lowest_below ?score i ?en (Some 200) None r"
      using c by (simp only: if_not_P [OF False])
    then obtain r where "?sel = Some r" by blast
    moreover have "\<forall>p\<in>set ?en. ?score p \<noteq> None"
      using False by (simp del: not_None_eq)
    ultimately show ?thesis by (simp del: not_None_eq)
  qed
qed

text \<open>
  Claim C10. The call returns exactly when the tensor has one row per camera and the
  scoring raises for no combination that the search enumerates, for any point. When it
  returns and no kept combination of point \<open>j\<close> scores below the bound of 200, that point's
  entries are as they were initialised: the 3D output is missing, the picked mask is false
  for every camera and candidate, the selected 2D points are missing, and the error entry
  is 0.
\<close>

theorem C10_unaccepted_point:
  "(triangulate_possible K cams points n_points n_possible undistort min_cams threshold \<noteq> None
      \<longleftrightarrow> length points = length cams \<and>
           (\<forall>i<n_points.
              \<forall>p\<in>set (enumerated (score_combination K cams points undistort i) min_cams
                         threshold (all_iters points n_possible i)).
                score_combination K cams points undistort i p \<noteq> None)) \<and>
   (triangulate_possible K cams points n_points n_possible undistort min_cams threshold = Some r \<and>
    j < n_points \<and>
    (\<forall>p\<in>set (kept_combinations min_cams (all_iters points n_possible j)).
       \<not> fl_less (error_of (score_combination K cams points undistort j) p) (Some 200))
    \<longrightarrow> point_slice r j
          = (missing3, replicate (length cams) (replicate n_possible False),
             replicate (length cams) (None, None), Some 0))"
proof (intro conjI impI)
  let ?sel = "select_at K cams points n_possible undistort min_cams threshold"
  have "(tp_loop ?sel [0..<n_points] (tp_init (length points) n_points n_possible) \<noteq> None)
          = (\<forall>i<n_points.
              \<forall>p\<in>set (enumerated (score_combination K cams points undistort i) min_cams
                         threshold (all_iters points n_possible i)).
                score_combination K cams points undistort i p \<noteq> None)"
    unfolding tp_loop_returns select_at_returns by (simp add: Ball_def del: not_None_eq)
  then show "triangulate_possible K cams points n_points n_possible undistort min_cams threshold
                 \<noteq> None
      \<longleftrightarrow> length points = length cams \<and>
           (\<forall>i<n_points.
              \<forall>p\<in>set (enumerated (score_combination K cams points undistort i) min_cams
                         threshold (all_iters points n_possible i)).
                score_combination K cams points undistort i p \<noteq> None)"
    unfolding triangulate_possible_def by (cases "length points = length cams") simp_all
next
  let ?sel = "select_at K cams points n_possible undistort min_cams threshold"
  assume h: "triangulate_possible K cams points n_points n_possible undistort min_cams threshold
               = Some r \<and>
             j < n_points \<and>
             (\<forall>p\<in>set (kept_combinations min_cams (all_iters points n_possible j)).
                \<not> fl_less (error_of (score_combination K cams points undistort j) p) (Some 200))"
  have len: "length points = length cams"
    using h by (auto simp: triangulate_possible_def split: if_splits)
  have run: "tp_loop ?sel [0..<n_points] (tp_init (length points) n_points n_possible) = Some r"
    using h len by (simp add: triangulate_possible_def)
  then have "tp_loop ?sel [0..<n_points] (tp_init (length points) n_points n_possible) \<noteq> None"
    by simp
  then have "\<forall>i\<in>set [0..<n_points]. ?sel i \<noteq> None"
    by (simp only: tp_loop_returns)
  then have "?sel j \<noteq> None"
    using h by simp
  then have none: "?sel j = Some None"
    using h by (intro select_at_none) simp_all
  have "point_slice r j = point_slice (tp_init (length points) n_points n_possible) j"
    using run by (rule tp_loop_slice) (rule disjI2, rule none)
  then show "point_slice r j
          = (missing3, replicate (length cams) (replicate n_possible False),
             replicate (length cams) (None, None), Some 0)"
    using h len by (simp add: point_slice_init)
qed


lemma sqrt_90000: "sqrt 90000 = 300" by (rule real_sqrt_unique) simp_all

lemma example_far_score:
  "score_combination example_kernels example_cams example_far True 0 [(0, 0), (Suc 0, 0)]
   = Some ((Some 1, Some 2, Some 3), Some 350, [(Some 400, Some 0), (Some 300, Some 0)])"
  by (simp add: tp_eval example_far_def example_cams_def sqrt_160000 sqrt_90000)

lemma example_far_kept:
  "kept_combinations 2 (all_iters example_far (Suc 0) 0) = [[(0, 0), (Suc 0, 0)]]"
  by (simp add: kept_combinations_def keep_combos_def all_iters_def candidates_def
      example_far_def isnan_def upt_rec drop_none_def)

lemma example_far_run:
  "triangulate_possible example_kernels example_cams example_far 1 1 True 2 (1 / 2)
     = Some (tp_init 2 1 1)"
  by (simp add: triangulate_possible_def select_at_def select_point_def all_iters_def
      candidates_def example_far_def example_cams_def isnan_def upt_rec drop_none_def
      example_far_score [unfolded example_far_def example_cams_def] fl_less_def Let_def
      tp_init_def numeral_2_eq_2)

theorem C10_unaccepted_point_witness:
  "triangulate_possible example_kernels example_cams example_far 1 1 True 2 (1 / 2)
     = Some (tp_init 2 1 1) \<and>
   point_slice (tp_init 2 1 1) 0
     = (missing3, [[False], [False]], [(None, None), (None, None)], Some 0) \<and>
   triangulate_possible example_kernels example_cams example_half 1 1 False 2 (1 / 2) = None"
proof -
  have 1: "triangulate_possible example_kernels example_cams example_far 1 1 True 2 (1 / 2)
             = Some (tp_init 2 1 1)"
    by (rule example_far_run)
  have 2: "(0::nat) < 1" by simp
  have 3: "\<forall>p\<in>set (kept_combinations 2 (all_iters example_far 1 0)).
             \<not> fl_less (error_of (score_combination example_kernels example_cams example_far True 0) p)
                  (Some 200)"
    by (simp add: example_far_kept error_of_def example_far_score fl_less_def)
  have a: "point_slice (tp_init 2 1 1) 0
             = (missing3, [[False], [False]], [(None, None), (None, None)], Some 0)"
    using C10_unaccepted_point [of example_kernels example_cams example_far 1 1 True 2 "1 / 2"
        "tp_init 2 1 1" 0] 1 2 3
    by (simp add: example_cams_def)
  have "\<not> (\<forall>i<1. \<forall>p\<in>set (enumerated
                             (score_combination example_kernels example_cams example_half False i)
                             2 (1 / 2) (all_iters example_half 1 i)).
              score_combination example_kernels example_cams example_half False i p \<noteq> None)"
    by (simp add: example_half_enumerated example_half_score)
  then have b: "triangulate_possible example_kernels example_cams example_half 1 1 False 2 (1 / 2)
                  = None"
    using C10_unaccepted_point [of example_kernels example_cams example_half 1 1 False 2 "1 / 2"]
    by blast
  show ?thesis
    using 1 a b by (intro conjI)
qed



lemma fold_max_ge: "m \<le> fold (\<lambda>p m. max (f p) m) xs (m::real)"
  by (induction xs arbitrary: m) (auto intro: order_trans [OF max.cobounded2])








end
